theory Spec2Isabelle
  imports Complex_Main
begin

section \<open>JavaScript values used by the rate limiter\<close>

text \<open>
  The embedding follows \<^verbatim>\<open>rate-limiter.js\<close> (class \<^verbatim>\<open>RateLimiter\<close>) and
  \<^verbatim>\<open>service-worker.js\<close> (class \<^verbatim>\<open>AIAvatarService\<close> and the message listener).
  Token and request counts are JavaScript numbers that only ever hold integers; they are
  \<^typ>\<open>int\<close> here. Costs are JavaScript doubles; they are \<^typ>\<open>real\<close> here, so the
  rounding of IEEE arithmetic is not part of the model. A JavaScript string is a
  \<^typ>\<open>string\<close> whose characters stand for code units below 256.
\<close>

text \<open>The white space of \<^verbatim>\<open>\s\<close> and of \<^verbatim>\<open>String.prototype.trim\<close> among those
  code units: tab, line feed, vertical tab, form feed, carriage return, space, no-break space.\<close>

definition js_space :: "char \<Rightarrow> bool" where
  "js_space c = (of_char c \<in> {9, 10, 11, 12, 13, 32, 160 :: nat})"

text \<open>\<^verbatim>\<open>text.split(/\s+/).length\<close>: one more than the number of maximal runs of white
  space. The flag says whether the previous character was white space.\<close>

fun space_runs :: "bool \<Rightarrow> string \<Rightarrow> nat" where
  "space_runs prev [] = 0"
| "space_runs prev (c # cs) =
     (if js_space c then (if prev then 0 else 1) + space_runs True cs
      else space_runs False cs)"

definition split_ws_length :: "string \<Rightarrow> nat" where
  "split_ws_length text = space_runs False text + 1"

section \<open>Data model of the rate limiter\<close>

record token_counts =
  prompt :: int
  completion :: int
  total :: int

text \<open>The shape \<^verbatim>\<open>{tokens, requests, cost}\<close> of a \<^verbatim>\<open>modelBreakdown\<close> entry.\<close>

record counters =
  tokens :: token_counts
  requests :: int
  cost :: real

text \<open>A scope of the ledger: \<^verbatim>\<open>usage.daily\<close>, \<^verbatim>\<open>usage.monthly\<close> or
  \<^verbatim>\<open>usage.lifetime\<close>. The field \<open>periodKey\<close> is \<^verbatim>\<open>date\<close> of the daily scope,
  \<^verbatim>\<open>month\<close> of the monthly scope and \<^verbatim>\<open>startDate\<close> of the lifetime scope.\<close>

record scope = counters +
  modelBreakdown :: "string \<rightharpoonup> counters"
  periodKey :: string

record minutely_scope =
  timestamp :: int
  minute_requests :: "int list"

record usage =
  daily :: scope
  monthly :: scope
  minutely :: minutely_scope
  lifetime :: scope

text \<open>An entry of \<^verbatim>\<open>this.models\<close>; the fields are \<^verbatim>\<open>prompt\<close>, \<^verbatim>\<open>completion\<close>
  (prices per 1000 tokens) and \<^verbatim>\<open>contextWindow\<close>.\<close>

record model_config =
  promptRate :: real
  completionRate :: real
  contextWindow :: int

text \<open>\<^verbatim>\<open>this.limits.daily\<close> and \<^verbatim>\<open>this.limits.monthly\<close>; \<open>None\<close> is \<^verbatim>\<open>null\<close>.\<close>

record period_limits =
  lim_tokens :: "int option"
  lim_requests :: "int option"
  lim_cost :: "real option"

text \<open>\<^verbatim>\<open>this.limits\<close>; \<open>perMinute\<close> is \<^verbatim>\<open>limits.perMinute.requests\<close>.\<close>

record limits =
  lim_daily :: period_limits
  lim_monthly :: period_limits
  perMinute :: "int option"

text \<open>The limiter object together with the value kept in \<^verbatim>\<open>chrome.storage.local\<close> under
  \<^verbatim>\<open>storageKey\<close>. \<open>usage = None\<close> is \<^verbatim>\<open>this.usage === null\<close>.\<close>

record limiter =
  models :: "string \<rightharpoonup> model_config"
  limits :: limits
  usage :: "usage option"
  initialized :: bool
  stored :: "usage option"

text \<open>What one call observes of the outside: \<^verbatim>\<open>Date.now()\<close>, the date and month strings
  and the ISO string of \<^verbatim>\<open>new Date()\<close>, and whether \<^verbatim>\<open>chrome.storage.local.get\<close> and
  \<^verbatim>\<open>chrome.storage.local.set\<close> report \<^verbatim>\<open>chrome.runtime.lastError\<close>.\<close>

record env =
  now_ms :: int
  currentDate :: string
  currentMonth :: string
  now_iso :: string
  get_fails :: bool
  set_fails :: bool

datatype limit_type =
  Rate | Daily_tokens | Daily_requests | Daily_cost
  | Monthly_tokens | Monthly_requests | Monthly_cost | Context

text \<open>\<^verbatim>\<open>retryAfter\<close> is \<^verbatim>\<open>Infinity\<close> when \<^verbatim>\<open>Math.min()\<close> is taken of no timestamp.\<close>

datatype retry_after = Retry_seconds int | Retry_infinity

text \<open>The object a check returns; the \<^verbatim>\<open>reason\<close> text is left out.\<close>

datatype decision =
  Denied limit_type "retry_after option"
  | Allowed token_counts real

datatype check_result = Pass | Deny limit_type "retry_after option"

record request_info =
  model :: string
  prompt_text :: string
  estimatedCompletion :: "int option"

record usage_info =
  u_model :: string
  promptTokens :: int
  completionTokens :: int

section \<open>Operations of the rate limiter\<close>

definition zero_tokens :: token_counts where
  "zero_tokens = \<lparr>prompt = 0, completion = 0, total = 0\<rparr>"

definition zero_counters :: counters where
  "zero_counters = \<lparr>tokens = zero_tokens, requests = 0, cost = 0\<rparr>"

text \<open>The object literal written out in \<^verbatim>\<open>createEmptyUsage\<close>, \<^verbatim>\<open>resetUsage\<close> and
  \<^verbatim>\<open>checkAndResetPeriods\<close>.\<close>

definition fresh_scope :: "string \<Rightarrow> scope" where
  "fresh_scope k =
     \<lparr>tokens = zero_tokens, requests = 0, cost = 0, modelBreakdown = Map.empty, periodKey = k\<rparr>"

definition createEmptyUsage :: "env \<Rightarrow> usage" where
  "createEmptyUsage e =
     \<lparr>daily = fresh_scope (currentDate e),
      monthly = fresh_scope (currentMonth e),
      minutely = \<lparr>timestamp = now_ms e, minute_requests = []\<rparr>,
      lifetime = fresh_scope (now_iso e)\<rparr>"

text \<open>\<^verbatim>\<open>Math.ceil((words * 1.3 + chars / 4) / 2)\<close>, in exact arithmetic.\<close>

definition countTokens :: "string \<Rightarrow> int" where
  "countTokens text =
     (if text = [] then 0
      else \<lceil>(real (split_ws_length text) * (13 / 10) + real (length text) / 4) / 2\<rceil>)"

text \<open>The result and the lines written by \<^verbatim>\<open>console.warn\<close>.\<close>

definition calculateCost :: "(string \<rightharpoonup> model_config) \<Rightarrow> string \<Rightarrow> int \<Rightarrow> int \<Rightarrow> real \<times> string list" where
  "calculateCost ms m p c =
     (case ms m of
        None \<Rightarrow> (0, [''Unknown model: '' @ m @ ''. Using default pricing.''])
      | Some cfg \<Rightarrow>
          ((real_of_int p / 1000) * promptRate cfg + (real_of_int c / 1000) * completionRate cfg, []))"

text \<open>\<^verbatim>\<open>saveUsage\<close>: \<open>False\<close> when the promise rejects.\<close>

definition saveUsage :: "env \<Rightarrow> limiter \<Rightarrow> bool \<times> limiter" where
  "saveUsage e st = (if set_fails e then (False, st) else (True, st\<lparr>stored := usage st\<rparr>))"

definition checkAndResetPeriods :: "env \<Rightarrow> limiter \<Rightarrow> bool \<times> limiter" where
  "checkAndResetPeriods e st =
     (case usage st of
        None \<Rightarrow> (False, st)
      | Some u \<Rightarrow>
          let u1 = (if periodKey (daily u) \<noteq> currentDate e
                    then u\<lparr>daily := fresh_scope (currentDate e)\<rparr> else u);
              u2 = (if periodKey (monthly u1) \<noteq> currentMonth e
                    then u1\<lparr>monthly := fresh_scope (currentMonth e)\<rparr> else u1);
              needsSave = (periodKey (daily u) \<noteq> currentDate e
                           \<or> periodKey (monthly u1) \<noteq> currentMonth e);
              st' = st\<lparr>usage := Some u2\<rparr>
          in if needsSave then saveUsage e st' else (True, st'))"

text \<open>\<^verbatim>\<open>initialize\<close> never rejects: every failure inside ends in the \<^verbatim>\<open>catch\<close> branch.\<close>

definition initialize :: "env \<Rightarrow> limiter \<Rightarrow> limiter" where
  "initialize e st =
     (if initialized st then st
      else if get_fails e
        then st\<lparr>usage := Some (createEmptyUsage e), initialized := True\<rparr>
      else (case stored st of
          Some u \<Rightarrow>
            (case checkAndResetPeriods e (st\<lparr>usage := Some u\<rparr>) of
               (True, st') \<Rightarrow> st'\<lparr>initialized := True\<rparr>
             | (False, st') \<Rightarrow> st'\<lparr>usage := Some (createEmptyUsage e), initialized := True\<rparr>)
        | None \<Rightarrow>
            (case saveUsage e (st\<lparr>usage := Some (createEmptyUsage e)\<rparr>) of
               (True, st') \<Rightarrow> st'\<lparr>initialized := True\<rparr>
             | (False, st') \<Rightarrow> st'\<lparr>usage := Some (createEmptyUsage e), initialized := True\<rparr>)))"

text \<open>The truth value of a limit in \<^verbatim>\<open>limits.tokens && ...\<close>: \<^verbatim>\<open>null\<close> and \<^verbatim>\<open>0\<close> are
  both false.\<close>

definition truthy :: "'a::zero option \<Rightarrow> bool" where
  "truthy l = (case l of None \<Rightarrow> False | Some n \<Rightarrow> n \<noteq> 0)"

text \<open>\<^verbatim>\<open>currentRequests >= limit\<close>, where the comparison turns \<^verbatim>\<open>null\<close> into 0.\<close>

definition ge_limit :: "int \<Rightarrow> int option \<Rightarrow> bool" where
  "ge_limit n l = (case l of None \<Rightarrow> n \<ge> 0 | Some k \<Rightarrow> n \<ge> k)"

text \<open>\<^verbatim>\<open>Math.min(...requests)\<close> of a non-empty list.\<close>

fun min_list_int :: "int \<Rightarrow> int list \<Rightarrow> int" where
  "min_list_int m [] = m"
| "min_list_int m (x # xs) = min_list_int (min m x) xs"

definition checkMinuteLimit :: "env \<Rightarrow> limits \<Rightarrow> usage \<Rightarrow> check_result" where
  "checkMinuteLimit e ls u =
     (let currentRequests = int (length (minute_requests (minutely u)))
      in if ge_limit currentRequests (perMinute ls)
         then Deny Rate (Some (case minute_requests (minutely u) of
                [] \<Rightarrow> Retry_infinity
              | t # ts \<Rightarrow> Retry_seconds (60 - (now_ms e - min_list_int t ts) div 1000)))
         else Pass)"

text \<open>The body shared by \<^verbatim>\<open>checkDailyLimits\<close> and \<^verbatim>\<open>checkMonthlyLimits\<close>, which differ
  in the scope, the limits and the three kinds they report.\<close>

definition checkPeriodLimits ::
  "limit_type \<Rightarrow> limit_type \<Rightarrow> limit_type \<Rightarrow> scope \<Rightarrow> period_limits \<Rightarrow> int \<Rightarrow> real \<Rightarrow> check_result" where
  "checkPeriodLimits kt kr kc s ls toks cst =
     (if truthy (lim_tokens ls) \<and> total (tokens s) + toks > the (lim_tokens ls)
        then Deny kt None
      else if truthy (lim_requests ls) \<and> requests s + 1 > the (lim_requests ls)
        then Deny kr None
      else if truthy (lim_cost ls) \<and> cost s + cst > the (lim_cost ls)
        then Deny kc None
      else Pass)"

definition checkDailyLimits :: "limits \<Rightarrow> usage \<Rightarrow> int \<Rightarrow> real \<Rightarrow> check_result" where
  "checkDailyLimits ls u toks cst =
     checkPeriodLimits Daily_tokens Daily_requests Daily_cost (daily u) (lim_daily ls) toks cst"

definition checkMonthlyLimits :: "limits \<Rightarrow> usage \<Rightarrow> int \<Rightarrow> real \<Rightarrow> check_result" where
  "checkMonthlyLimits ls u toks cst =
     checkPeriodLimits Monthly_tokens Monthly_requests Monthly_cost (monthly u) (lim_monthly ls) toks cst"

text \<open>\<^verbatim>\<open>checkRequest\<close> returns the decision and leaves the limiter as \<^verbatim>\<open>initialize\<close>
  left it. The decision is \<open>None\<close> where the source would throw on \<^verbatim>\<open>this.usage === null\<close>,
  which \<^verbatim>\<open>initialize\<close> excludes.\<close>

definition checkRequest :: "env \<Rightarrow> request_info \<Rightarrow> limiter \<Rightarrow> decision option \<times> limiter" where
  "checkRequest e r st =
     (let st1 = initialize e st;
          est = (case estimatedCompletion r of None \<Rightarrow> 500 | Some n \<Rightarrow> n);
          promptToks = countTokens (prompt_text r);
          totalTokens = promptToks + est;
          estimatedCost = fst (calculateCost (models st1) (model r) promptToks est)
      in case usage st1 of
           None \<Rightarrow> (None, st1)
         | Some u \<Rightarrow>
            (case checkMinuteLimit e (limits st1) u of
               Deny k ra \<Rightarrow> (Some (Denied k ra), st1)
             | Pass \<Rightarrow>
            (case checkDailyLimits (limits st1) u totalTokens estimatedCost of
               Deny k ra \<Rightarrow> (Some (Denied k ra), st1)
             | Pass \<Rightarrow>
            (case checkMonthlyLimits (limits st1) u totalTokens estimatedCost of
               Deny k ra \<Rightarrow> (Some (Denied k ra), st1)
             | Pass \<Rightarrow>
            (case models st1 (model r) of
               Some cfg \<Rightarrow>
                 if promptToks > contextWindow cfg then (Some (Denied Context None), st1)
                 else (Some (Allowed \<lparr>prompt = promptToks, completion = est, total = totalTokens\<rparr>
                         estimatedCost), st1)
             | None \<Rightarrow>
                 (Some (Allowed \<lparr>prompt = promptToks, completion = est, total = totalTokens\<rparr>
                    estimatedCost), st1))))))"

text \<open>The five \<^verbatim>\<open>+=\<close> lines that \<^verbatim>\<open>recordUsage\<close> applies to a scope and to a
  \<^verbatim>\<open>modelBreakdown\<close> entry.\<close>

definition add_counters :: "int \<Rightarrow> int \<Rightarrow> real \<Rightarrow> ('a counters_scheme) \<Rightarrow> ('a counters_scheme)" where
  "add_counters p c cst s =
     s\<lparr>tokens := \<lparr>prompt = prompt (tokens s) + p,
                  completion = completion (tokens s) + c,
                  total = total (tokens s) + (p + c)\<rparr>,
       requests := requests s + 1,
       cost := cost s + cst\<rparr>"

text \<open>One of the three blocks of \<^verbatim>\<open>recordUsage\<close>: the scope's own counters, then its
  \<^verbatim>\<open>modelBreakdown[model]\<close>, created zeroed when absent.\<close>

definition add_usage :: "string \<Rightarrow> int \<Rightarrow> int \<Rightarrow> real \<Rightarrow> scope \<Rightarrow> scope" where
  "add_usage m p c cst s =
     (let s1 = add_counters p c cst s;
          entry = (case modelBreakdown s1 m of None \<Rightarrow> zero_counters | Some en \<Rightarrow> en)
      in s1\<lparr>modelBreakdown := (modelBreakdown s1)(m \<mapsto> add_counters p c cst entry)\<rparr>)"

text \<open>The statements of \<^verbatim>\<open>recordUsage\<close> after \<^verbatim>\<open>await this.initialize()\<close>, up to the
  call of \<^verbatim>\<open>saveUsage\<close>: they run without a suspension point. \<open>False\<close> when the promise
  rejects (the final \<^verbatim>\<open>saveUsage\<close> failed, after the counters in memory were changed).\<close>

definition recordUsage_body :: "env \<Rightarrow> usage_info \<Rightarrow> limiter \<Rightarrow> bool \<times> limiter" where
  "recordUsage_body e i st1 =
     (let cst = fst (calculateCost (models st1) (u_model i) (promptTokens i) (completionTokens i))
      in case usage st1 of
           None \<Rightarrow> (False, st1)
         | Some u \<Rightarrow>
             let d = add_usage (u_model i) (promptTokens i) (completionTokens i) cst (daily u);
                 mo = add_usage (u_model i) (promptTokens i) (completionTokens i) cst (monthly u);
                 lf = add_usage (u_model i) (promptTokens i) (completionTokens i) cst (lifetime u);
                 reqs = filter (\<lambda>t. t > now_ms e - 60000)
                          (minute_requests (minutely u) @ [now_ms e]);
                 u' = u\<lparr>daily := d, monthly := mo, lifetime := lf,
                        minutely := (minutely u)\<lparr>minute_requests := reqs\<rparr>\<rparr>
             in saveUsage e (st1\<lparr>usage := Some u'\<rparr>))"

definition recordUsage :: "env \<Rightarrow> usage_info \<Rightarrow> limiter \<Rightarrow> bool \<times> limiter" where
  "recordUsage e i st = recordUsage_body e i (initialize e st)"



section \<open>Strings of the streaming decoder\<close>

definition startsWith :: "string \<Rightarrow> string \<Rightarrow> bool" where
  "startsWith s p = (take (length p) s = p)"

fun js_includes :: "string \<Rightarrow> string \<Rightarrow> bool" where
  "js_includes [] p = (p = [])"
| "js_includes (c # cs) p = (startsWith (c # cs) p \<or> js_includes cs p)"

definition trim :: "string \<Rightarrow> string" where
  "trim s = rev (dropWhile js_space (rev (dropWhile js_space s)))"

text \<open>\<^verbatim>\<open>buffer.split('\n')\<close>: never empty; the last element is the text after the last
  line feed.\<close>

fun split_nl :: "string \<Rightarrow> string list" where
  "split_nl [] = [[]]"
| "split_nl (c # cs) =
     (if c = CHR 0x0A then [] # split_nl cs
      else (case split_nl cs of [] \<Rightarrow> [[c]] | l # ls \<Rightarrow> (c # l) # ls))"

text \<open>The decimal digits of a status code, as a template literal prints them.\<close>

fun show_nat :: "nat \<Rightarrow> string" where
  "show_nat n =
     (if n < 10 then [char_of (48 + n)]
      else show_nat (n div 10) @ [char_of (48 + n mod 10)])"

section \<open>Data model of the streaming call\<close>

record js_error =
  err_name :: string
  err_message :: string

text \<open>\<^verbatim>\<open>new Error(msg)\<close>.\<close>

definition Error :: "string \<Rightarrow> js_error" where
  "Error msg = \<lparr>err_name = ''Error'', err_message = msg\<rparr>"

text \<open>The usage object of the API. \<open>total_tokens = None\<close> is a usage object without that
  field.\<close>

record api_usage =
  prompt_tokens :: int
  completion_tokens :: int
  total_tokens :: "int option"

text \<open>What the decoder reads of \<^verbatim>\<open>JSON.parse(data)\<close>:
  \<^verbatim>\<open>parsed.choices[0]?.delta?.content\<close>, \<^verbatim>\<open>parsed.choices[0]?.finish_reason\<close> and
  \<^verbatim>\<open>parsed.usage\<close>, each \<open>None\<close> when absent. \<^verbatim>\<open>JSON.parse\<close> itself is a parameter
  of the model, a function from the payload to a frame that is \<open>None\<close> where the
  \<^verbatim>\<open>try\<close> block throws.\<close>

record frame =
  delta_content :: "string option"
  finish_reason :: "string option"
  frame_usage :: "api_usage option"

type_synonym parser = "string \<Rightarrow> frame option"

record chunk =
  content :: string
  accumulated :: string
  finished :: bool

record stream_result =
  res_content :: string
  res_usage :: api_usage

text \<open>A call of one of the callbacks of \<^verbatim>\<open>callOpenAIStream\<close>; \<open>OnError\<close> carries the
  \<^verbatim>\<open>message\<close> of the error object handed over.\<close>

datatype callback = OnChunk chunk | OnError string | OnComplete stream_result

record stream_options =
  has_onChunk :: bool
  has_onError :: bool
  has_onComplete :: bool
  has_abortController :: bool

datatype read_outcome = Value string | Done | Rejected js_error

text \<open>One \<^verbatim>\<open>reader.read()\<close>: the time until it settles, how it settles (the value is the
  text that \<^verbatim>\<open>decoder.decode\<close> makes of the bytes), and the time the loop body then takes
  until the next test of \<^verbatim>\<open>Date.now() - lastChunkTime\<close>. A list of reads that ends without
  \<open>Done\<close> or \<open>Rejected\<close> is a body whose next read never settles.\<close>

record read_event =
  wait_ms :: int
  outcome :: read_outcome
  work_ms :: int

text \<open>The response to \<^verbatim>\<open>fetch\<close>. \<open>error_body\<close> is read only when the status is not
  2xx: \<open>None\<close> when \<^verbatim>\<open>response.json()\<close> fails, otherwise \<^verbatim>\<open>error.error?.message\<close>.\<close>

record response =
  status :: nat
  error_body :: "string option option"
  body_reads :: "read_event list"

datatype fetch_outcome = Fetch_rejected js_error | Fetch_response response

datatype stream_outcome = Returned stream_result | Thrown js_error | Hangs

record stream_state =
  accumulatedContent :: string
  tokenUsage :: api_usage
  buffer :: string
  emitted :: "callback list"

datatype loop_end = Loop_done stream_state | Loop_thrown js_error stream_state | Loop_hangs stream_state

section \<open>The streaming call\<close>

definition timeout :: int where
  "timeout = 30000"

definition initial_stream_state :: stream_state where
  "initial_stream_state =
     \<lparr>accumulatedContent = [],
      tokenUsage = \<lparr>prompt_tokens = 0, completion_tokens = 0, total_tokens = Some 0\<rparr>,
      buffer = [], emitted = []\<rparr>"

text \<open>The \<^verbatim>\<open>try\<close> block of the decode loop, for a frame that parsed.\<close>

definition handle_frame :: "stream_options \<Rightarrow> frame \<Rightarrow> stream_state \<Rightarrow> stream_state" where
  "handle_frame opts f s =
     (let s1 = (case delta_content f of
                  None \<Rightarrow> s
                | Some ch \<Rightarrow>
                    if ch = [] then s
                    else s\<lparr>accumulatedContent := accumulatedContent s @ ch,
                           emitted := emitted s @
                             (if has_onChunk opts
                              then [OnChunk \<lparr>content = ch,
                                      accumulated = accumulatedContent s @ ch, finished = False\<rparr>]
                              else [])\<rparr>)
      in case frame_usage f of None \<Rightarrow> s1 | Some u \<Rightarrow> s1\<lparr>tokenUsage := u\<rparr>)"

text \<open>The body of \<^verbatim>\<open>for (const line of lines)\<close>.\<close>

definition process_line :: "parser \<Rightarrow> stream_options \<Rightarrow> stream_state \<Rightarrow> string \<Rightarrow> stream_state" where
  "process_line parse opts s line =
     (if trim line = [] then s
      else if startsWith line '':'' then s
      else if startsWith line ''data: '' then
        (let data = trim (drop 6 line)
         in if data = ''[DONE]'' then s
            else (case parse data of None \<Rightarrow> s | Some f \<Rightarrow> handle_frame opts f s))
      else s)"

text \<open>The statements between \<^verbatim>\<open>lastChunkTime = Date.now()\<close> and the end of the loop body.\<close>

definition process_value :: "parser \<Rightarrow> stream_options \<Rightarrow> string \<Rightarrow> stream_state \<Rightarrow> stream_state" where
  "process_value parse opts v s =
     (let ls = split_nl (buffer s @ v)
      in foldl (process_line parse opts) (s\<lparr>buffer := last ls\<rparr>) (butlast ls))"

text \<open>The \<^verbatim>\<open>while (true)\<close> loop. With an abort controller the read races a timer of
  \<open>timeout\<close> milliseconds; without one the read is awaited alone. The test at the head of
  the loop compares the clock with \<^verbatim>\<open>lastChunkTime\<close>, which was set when the last read
  settled, so it sees the time the loop body took. A read that settles at exactly
  \<open>timeout\<close> milliseconds is taken to win the race against the timer.\<close>

fun read_loop :: "parser \<Rightarrow> stream_options \<Rightarrow> read_event list \<Rightarrow> stream_state \<Rightarrow> loop_end" where
  "read_loop parse opts [] s =
     (if has_abortController opts then Loop_thrown (Error ''Read timeout'') s else Loop_hangs s)"
| "read_loop parse opts (ev # evs) s =
     (if has_abortController opts \<and> wait_ms ev > timeout
        then Loop_thrown (Error ''Read timeout'') s
      else (case outcome ev of
          Rejected err \<Rightarrow> Loop_thrown err s
        | Done \<Rightarrow> Loop_done s
        | Value v \<Rightarrow>
            (let s1 = process_value parse opts v s
             in if work_ms ev > timeout
                then Loop_thrown (Error ''Stream timeout - no data received for 30 seconds'') s1
                else read_loop parse opts evs s1)))"

text \<open>\<^verbatim>\<open>// Process any remaining buffer\<close>: only the usage of the frame is read.\<close>

definition process_remaining :: "parser \<Rightarrow> stream_state \<Rightarrow> stream_state" where
  "process_remaining parse s =
     (if trim (buffer s) \<noteq> [] \<and> startsWith (buffer s) ''data: '' then
        (let data = trim (drop 6 (buffer s))
         in if data \<noteq> ''[DONE]'' then
              (case parse data of
                 None \<Rightarrow> s
               | Some f \<Rightarrow> (case frame_usage f of None \<Rightarrow> s | Some u \<Rightarrow> s\<lparr>tokenUsage := u\<rparr>))
            else s)
      else s)"

text \<open>\<^verbatim>\<open>// Estimate token usage if not provided by the API\<close>; \<open>msgs\<close> is
  \<^verbatim>\<open>JSON.stringify(messages)\<close>.\<close>

definition estimate_usage :: "string \<Rightarrow> stream_state \<Rightarrow> stream_state" where
  "estimate_usage msgs s =
     (if \<not> truthy (total_tokens (tokenUsage s)) \<or> total_tokens (tokenUsage s) = Some 0
      then s\<lparr>tokenUsage := (tokenUsage s)
               \<lparr>prompt_tokens := countTokens msgs,
                completion_tokens := countTokens (accumulatedContent s),
                total_tokens := Some (countTokens msgs + countTokens (accumulatedContent s))\<rparr>\<rparr>
      else s)"

text \<open>The message of the error thrown for a response that is not \<^verbatim>\<open>ok\<close>.\<close>

definition http_error_message :: "response \<Rightarrow> string" where
  "http_error_message r =
     (case error_body r of
        None \<Rightarrow> ''API request failed with status '' @ show_nat (status r)
      | Some m \<Rightarrow>
          if status r = 429 then ''Rate limit exceeded. Please try again later.''
          else if status r = 401 then ''Invalid API key. Please check your settings.''
          else if status r = 500 \<or> status r = 502 \<or> status r = 503
            then ''OpenAI service is temporarily unavailable. Please try again.''
          else (case m of None \<Rightarrow> ''API request failed''
                | Some msg \<Rightarrow> if msg = [] then ''API request failed'' else msg))"

text \<open>The \<^verbatim>\<open>catch\<close> block: the callbacks it calls; the error is then thrown again.\<close>

definition catch_block :: "stream_options \<Rightarrow> js_error \<Rightarrow> callback list" where
  "catch_block opts err =
     (if err_name err = ''AbortError''
        then (if has_onError opts then [OnError ''Stream aborted by user''] else [])
      else (let userFriendlyError =
                  (if js_includes (err_message err) ''Failed to fetch''
                     then ''Network error. Please check your connection and try again.''
                   else if js_includes (err_message err) ''timeout''
                     then ''Request timed out. Please try again.''
                   else err_message err)
            in if has_onError opts then [OnError userFriendlyError] else []))"

text \<open>\<^verbatim>\<open>callOpenAIStream\<close>: the callbacks called, in order, and how the call ends.\<close>

definition callOpenAIStream ::
  "parser \<Rightarrow> string \<Rightarrow> stream_options \<Rightarrow> fetch_outcome \<Rightarrow> callback list \<times> stream_outcome" where
  "callOpenAIStream parse msgs opts fetch =
     (case fetch of
        Fetch_rejected err \<Rightarrow> (catch_block opts err, Thrown err)
      | Fetch_response r \<Rightarrow>
          if \<not> (200 \<le> status r \<and> status r \<le> 299)
            then (catch_block opts (Error (http_error_message r)),
                  Thrown (Error (http_error_message r)))
          else (case read_loop parse opts (body_reads r) initial_stream_state of
              Loop_thrown err s \<Rightarrow> (emitted s @ catch_block opts err, Thrown err)
            | Loop_hangs s \<Rightarrow> (emitted s, Hangs)
            | Loop_done s \<Rightarrow>
                (let s1 = estimate_usage msgs (process_remaining parse s);
                     res = \<lparr>res_content = accumulatedContent s1, res_usage = tokenUsage s1\<rparr>
                 in (emitted s1 @ (if has_onComplete opts then [OnComplete res] else []),
                     Returned res))))"

section \<open>The streaming entry point of the service\<close>

text \<open>The object handed to \<^verbatim>\<open>streamOptions.onComplete\<close>; \<^verbatim>\<open>conversationLength\<close> is left
  out, the conversation store not being part of the model.\<close>

record completion_info =
  response_text :: string
  tokenUsage_prompt :: int
  tokenUsage_completion :: int
  tokenUsage_total :: "int option"

text \<open>A call of one of the callbacks in \<^verbatim>\<open>streamOptions\<close>.\<close>

datatype caller_event = Chunk_event chunk | Error_event string | Complete_event completion_info

text \<open>How \<^verbatim>\<open>generateResponseStream\<close> ends: it throws before the \<^verbatim>\<open>try\<close> block, or
  returns the rate limit error object, \<^verbatim>\<open>{success: true, streaming: true}\<close> or
  \<^verbatim>\<open>{success: false, error: error.message}\<close>, or waits for a read that never settles.\<close>

datatype gen_result =
  Gen_throws js_error
  | Gen_rate_limited limit_type "retry_after option"
  | Gen_streaming
  | Gen_failed string
  | Gen_hangs

text \<open>The words of \<^verbatim>\<open>reason\<close> before the figures, which are left out.\<close>

fun reason_text :: "limit_type \<Rightarrow> string" where
  "reason_text Rate = ''Rate limit exceeded''"
| "reason_text Daily_tokens = ''Daily token limit exceeded''"
| "reason_text Daily_requests = ''Daily request limit exceeded''"
| "reason_text Daily_cost = ''Daily cost limit exceeded''"
| "reason_text Monthly_tokens = ''Monthly token limit exceeded''"
| "reason_text Monthly_requests = ''Monthly request limit exceeded''"
| "reason_text Monthly_cost = ''Monthly cost limit exceeded''"
| "reason_text Context = ''Prompt exceeds model context window''"

text \<open>What a callback of \<^verbatim>\<open>callOpenAIStream\<close> does inside \<^verbatim>\<open>generateResponseStream\<close>:
  the \<^verbatim>\<open>onChunk\<close> wrapper forwards the chunk, \<^verbatim>\<open>onError\<close> is the caller's own function,
  and the \<^verbatim>\<open>onComplete\<close> wrapper records the usage (the only call of \<^verbatim>\<open>recordUsage\<close> on
  the streaming path) and then notifies the caller. \<open>e\<close> is the clock at completion.\<close>

definition deliver ::
  "env \<Rightarrow> stream_options \<Rightarrow> caller_event list \<times> limiter \<Rightarrow> callback \<Rightarrow> caller_event list \<times> limiter" where
  "deliver e opts acc cb =
     (case cb of
        OnChunk c \<Rightarrow> (fst acc @ (if has_onChunk opts then [Chunk_event c] else []), snd acc)
      | OnError m \<Rightarrow> (fst acc @ [Error_event m], snd acc)
      | OnComplete r \<Rightarrow>
          (case recordUsage e \<lparr>u_model = ''gpt-4'',
                                promptTokens = prompt_tokens (res_usage r),
                                completionTokens = completion_tokens (res_usage r)\<rparr> (snd acc) of
             (True, st') \<Rightarrow>
               (fst acc @ (if has_onComplete opts
                  then [Complete_event \<lparr>response_text = res_content r,
                          tokenUsage_prompt = prompt_tokens (res_usage r),
                          tokenUsage_completion = completion_tokens (res_usage r),
                          tokenUsage_total = total_tokens (res_usage r)\<rparr>]
                  else []), st')
           | (False, st') \<Rightarrow> (fst acc, st')))"

text \<open>\<^verbatim>\<open>generateResponseStream\<close>. \<open>has_key\<close> is \<^verbatim>\<open>!!this.apiKey\<close>, \<open>promptContent\<close> is
  \<^verbatim>\<open>JSON.stringify(conversation.messages)\<close>, \<open>e\<close> is the clock at admission and \<open>e'\<close> the
  clock at completion.\<close>

definition generateResponseStream ::
  "parser \<Rightarrow> env \<Rightarrow> env \<Rightarrow> bool \<Rightarrow> string \<Rightarrow> stream_options \<Rightarrow> fetch_outcome \<Rightarrow> limiter
    \<Rightarrow> caller_event list \<times> gen_result \<times> limiter" where
  "generateResponseStream parse e e' has_key promptContent opts fetch st =
     (if \<not> has_key then ([], Gen_throws (Error ''OpenAI API key not configured''), st)
      else (case checkRequest e \<lparr>model = ''gpt-4'', prompt_text = promptContent,
                                  estimatedCompletion = Some 1000\<rparr> st of
          (None, st1) \<Rightarrow>
            ((if has_onError opts then [Error_event ''TypeError''] else []),
             Gen_failed ''TypeError'', st1)
        | (Some (Denied k ra), st1) \<Rightarrow>
            ((if has_onError opts
              then [Error_event (''Rate limit exceeded: '' @ reason_text k)] else []),
             Gen_rate_limited k ra, st1)
        | (Some (Allowed t c), st1) \<Rightarrow>
            (case callOpenAIStream parse promptContent
                    (opts\<lparr>has_onChunk := True, has_onComplete := True\<rparr>) fetch of
               (cbs, out) \<Rightarrow>
                 (let done = foldl (deliver e' opts) ([], st1) cbs
                  in case out of
                       Returned r \<Rightarrow> (fst done, Gen_streaming, snd done)
                     | Thrown err \<Rightarrow>
                         (fst done @ (if has_onError opts then [Error_event (err_message err)] else []),
                          Gen_failed (err_message err), snd done)
                     | Hangs \<Rightarrow> (fst done, Gen_hangs, snd done)))))"



text \<open>The \<^verbatim>\<open>'generateResponseStream'\<close> case of the listener: it passes an abort controller
  and all three callbacks. The bookkeeping of \<^verbatim>\<open>activeStreams\<close> is left out.\<close>

definition listener_options :: stream_options where
  "listener_options =
     \<lparr>has_onChunk = True, has_onError = True, has_onComplete = True, has_abortController = True\<rparr>"


section \<open>Interleaved calls of recordUsage\<close>

text \<open>
  Two calls of \<^verbatim>\<open>recordUsage\<close> run on one thread and can be interleaved where a call is
  suspended at an \<^verbatim>\<open>await\<close>. A call is at one of these points: before its first statement;
  inside \<^verbatim>\<open>initialize\<close>, waiting for \<^verbatim>\<open>getFromStorage\<close> (whose result is the value that
  was in storage when the read was issued); inside \<^verbatim>\<open>initialize\<close>, after
  \<^verbatim>\<open>checkAndResetPeriods\<close> or \<^verbatim>\<open>saveUsage\<close>; after \<^verbatim>\<open>await this.initialize()\<close>;
  waiting for the final \<^verbatim>\<open>saveUsage\<close>; finished. The statements between two such points
  run as one step. On the path through \<^verbatim>\<open>initialize\<close> the storage operations are taken to
  succeed.
\<close>

datatype pc = At_start | Await_get "usage option" | In_initialize | After_initialize
  | Await_save | Finished

definition task_step :: "env \<Rightarrow> usage_info \<Rightarrow> pc \<Rightarrow> limiter \<Rightarrow> pc \<times> limiter" where
  "task_step e i p st =
     (case p of
        At_start \<Rightarrow>
          if initialized st then (After_initialize, st) else (Await_get (stored st), st)
      | Await_get snap \<Rightarrow>
          (case snap of
             Some u \<Rightarrow> (In_initialize, snd (checkAndResetPeriods e (st\<lparr>usage := Some u\<rparr>)))
           | None \<Rightarrow>
               (In_initialize, snd (saveUsage e (st\<lparr>usage := Some (createEmptyUsage e)\<rparr>))))
      | In_initialize \<Rightarrow> (After_initialize, st\<lparr>initialized := True\<rparr>)
      | After_initialize \<Rightarrow> (Await_save, snd (recordUsage_body e i st))
      | Await_save \<Rightarrow> (Finished, st)
      | Finished \<Rightarrow> (Finished, st))"

text \<open>A schedule says which of the two calls takes the next step; a step of a finished call
  changes nothing.\<close>

fun run :: "env \<Rightarrow> usage_info \<Rightarrow> usage_info \<Rightarrow> bool list \<Rightarrow> pc \<times> pc \<times> limiter \<Rightarrow> pc \<times> pc \<times> limiter" where
  "run e i1 i2 [] c = c"
| "run e i1 i2 (b # bs) (p1, p2, st) =
     (if b then (case task_step e i1 p1 st of (p1', st') \<Rightarrow> run e i1 i2 bs (p1', p2, st'))
      else (case task_step e i2 p2 st of (p2', st') \<Rightarrow> run e i1 i2 bs (p1, p2', st')))"

text \<open>The tokens a call has yet to add, the steps a call that finds the limiter initialised
  has yet to take, and the points such a call passes through.\<close>

definition owed :: "usage_info \<Rightarrow> pc \<Rightarrow> int" where
  "owed i p = (if p = Await_save \<or> p = Finished then 0 else promptTokens i + completionTokens i)"

fun steps_left :: "pc \<Rightarrow> nat" where
  "steps_left At_start = 3"
| "steps_left After_initialize = 2"
| "steps_left Await_save = 1"
| "steps_left Finished = 0"
| "steps_left p = 5"

definition past_initialize :: "pc \<Rightarrow> bool" where
  "past_initialize p = (p = At_start \<or> p = After_initialize \<or> p = Await_save \<or> p = Finished)"

definition daily_total :: "limiter \<Rightarrow> int option" where
  "daily_total st = map_option (\<lambda>u. total (tokens (daily u))) (usage st)"

section \<open>Properties named by the specification\<close>












text \<open>The chunks among the callbacks called, and what it means for them to carry the text
  accumulated so far: each \<open>accumulated\<close> is the previous one followed by the chunk's own
  \<open>content\<close>.\<close>

fun chunks_of :: "callback list \<Rightarrow> chunk list" where
  "chunks_of [] = []"
| "chunks_of (OnChunk c # cbs) = c # chunks_of cbs"
| "chunks_of (cb # cbs) = chunks_of cbs"

fun chunks_consistent :: "string \<Rightarrow> chunk list \<Rightarrow> bool" where
  "chunks_consistent acc [] = True"
| "chunks_consistent acc (c # cs) =
     (accumulated c = acc @ content c \<and> chunks_consistent (accumulated c) cs)"

text \<open>The invariant of the decode loop.\<close>

definition stream_inv :: "stream_state \<Rightarrow> bool" where
  "stream_inv s = (chunks_consistent [] (chunks_of (emitted s))
     \<and> concat (map content (chunks_of (emitted s))) = accumulatedContent s)"

fun end_state :: "loop_end \<Rightarrow> stream_state" where
  "end_state (Loop_done s) = s"
| "end_state (Loop_thrown err s) = s"
| "end_state (Loop_hangs s) = s"

fun is_chunk :: "callback \<Rightarrow> bool" where
  "is_chunk (OnChunk c) = True"
| "is_chunk cb = False"

text \<open>A read that delivers data within the time limit and is processed within it.\<close>

definition timely :: "read_event \<Rightarrow> bool" where
  "timely ev = (wait_ms ev \<le> timeout \<and> work_ms ev \<le> timeout \<and> (\<exists>v. outcome ev = Value v))"

text \<open>The request that \<^verbatim>\<open>generateResponseStream\<close> checks, and the options it passes on.\<close>

definition stream_request :: "string \<Rightarrow> request_info" where
  "stream_request p = \<lparr>model = ''gpt-4'', prompt_text = p, estimatedCompletion = Some 1000\<rparr>"

definition with_wrappers :: "stream_options \<Rightarrow> stream_options" where
  "with_wrappers opts = opts\<lparr>has_onChunk := True, has_onComplete := True\<rparr>"

text \<open>The heuristic estimate of the usage of a call: \<open>countTokens\<close> of the serialised
  message list, \<open>countTokens\<close> of the accumulated text, and their sum.\<close>

definition estimated_usage :: "string \<Rightarrow> string \<Rightarrow> api_usage" where
  "estimated_usage msgs text =
     \<lparr>prompt_tokens = countTokens msgs, completion_tokens = countTokens text,
      total_tokens = Some (countTokens msgs + countTokens text)\<rparr>"

section \<open>Example inputs\<close>

text \<open>A clock reading of the given day, the built-in price of \<^verbatim>\<open>gpt-4\<close>, limits whose daily
  token limit is the parameter, and a ledger that was last written on 2024-01-01 with 95 tokens
  used.\<close>

definition ex_env :: "string \<Rightarrow> env" where
  "ex_env d = \<lparr>now_ms = 1704153600000, currentDate = d, currentMonth = ''2024-01'',
             now_iso = ''2024-01-02T00:00:00.000Z'', get_fails = False, set_fails = False\<rparr>"

definition ex_limits :: "int option \<Rightarrow> limits" where
  "ex_limits l =
     \<lparr>lim_daily = \<lparr>lim_tokens = l, lim_requests = Some 1000, lim_cost = Some 10\<rparr>,
      lim_monthly = \<lparr>lim_tokens = Some 2000000, lim_requests = Some 20000, lim_cost = Some 200\<rparr>,
      perMinute = Some 20\<rparr>"

definition ex_models :: "string \<rightharpoonup> model_config" where
  "ex_models = [''gpt-4'' \<mapsto> \<lparr>promptRate = 3 / 100, completionRate = 6 / 100, contextWindow = 8192\<rparr>]"

definition ex_counters :: counters where
  "ex_counters = \<lparr>tokens = \<lparr>prompt = 60, completion = 35, total = 95\<rparr>, requests = 1, cost = 39 / 10000\<rparr>"

definition ex_scope :: "string \<Rightarrow> scope" where
  "ex_scope k = \<lparr>tokens = \<lparr>prompt = 60, completion = 35, total = 95\<rparr>, requests = 1, cost = 39 / 10000,
       modelBreakdown = [''gpt-4'' \<mapsto> ex_counters], periodKey = k\<rparr>"

definition ex_usage :: usage where
  "ex_usage = \<lparr>daily = ex_scope ''2024-01-01'', monthly = ex_scope ''2024-01'',
                minutely = \<lparr>timestamp = 1704100000000, minute_requests = []\<rparr>,
                lifetime = ex_scope ''2024-01-01T10:00:00.000Z''\<rparr>"

definition ex_limiter :: "int option \<Rightarrow> limiter" where
  "ex_limiter l = \<lparr>models = ex_models, limits = ex_limits l, usage = Some ex_usage,
                   initialized = True, stored = Some ex_usage\<rparr>"

definition ex_request :: request_info where
  "ex_request = \<lparr>model = ''gpt-4'', prompt_text = ''hi'', estimatedCompletion = Some 9\<rparr>"


definition ex_info :: usage_info where
  "ex_info = \<lparr>u_model = ''gpt-4'', promptTokens = 100, completionTokens = 50\<rparr>"

definition new_limiter :: limiter where
  "new_limiter = \<lparr>models = ex_models, limits = ex_limits (Some 100), usage = None,
                   initialized = False, stored = None\<rparr>"

text \<open>A parser that knows three payloads (two content deltas and an all-zero usage record), a
  body of three reads, a body that is aborted after its first read, and an error response.\<close>

definition nl :: string where
  "nl = [CHR 0x0A]"

definition ex_parse :: parser where
  "ex_parse d =
     (if d = ''A'' then Some \<lparr>delta_content = Some ''Hello'', finish_reason = None, frame_usage = None\<rparr>
      else if d = ''B'' then Some \<lparr>delta_content = Some '' world'', finish_reason = Some ''stop'', frame_usage = None\<rparr>
      else if d = ''Z'' then Some \<lparr>delta_content = None, finish_reason = None,
        frame_usage = Some \<lparr>prompt_tokens = 0, completion_tokens = 0, total_tokens = Some 0\<rparr>\<rparr>
      else None)"

definition abort_error :: js_error where
  "abort_error = \<lparr>err_name = ''AbortError'', err_message = ''The user aborted a request.''\<rparr>"

definition body_part1 :: string where
  "body_part1 = ''data: A'' @ nl @ nl @ ''data: B'' @ nl"

definition body_part2 :: string where
  "body_part2 = nl @ ''data: Z'' @ nl @ nl @ ''data: [DONE]'' @ nl @ nl"

definition first_read :: "int \<Rightarrow> read_event" where
  "first_read w = \<lparr>wait_ms = w, outcome = Value body_part1, work_ms = 2\<rparr>"

definition ex_reads_ok :: "int \<Rightarrow> read_event list" where
  "ex_reads_ok w =
     [first_read w,
      \<lparr>wait_ms = 80, outcome = Value body_part2, work_ms = 1\<rparr>,
      \<lparr>wait_ms = 5, outcome = Done, work_ms = 0\<rparr>]"

definition ex_reads_abort :: "read_event list" where
  "ex_reads_abort = [first_read 120, \<lparr>wait_ms = 200, outcome = Rejected abort_error, work_ms = 0\<rparr>]"

definition ok_response :: "read_event list \<Rightarrow> fetch_outcome" where
  "ok_response rs = Fetch_response \<lparr>status = 200, error_body = None, body_reads = rs\<rparr>"


text \<open>The chunks and the decoder state that the first read of the example bodies produces, a
  read that settles after 45 seconds, and the clock and limiter of the streaming examples.\<close>

definition hello_chunks :: "chunk list" where
  "hello_chunks =
     [\<lparr>content = ''Hello'', accumulated = ''Hello'', finished = False\<rparr>,
      \<lparr>content = '' world'', accumulated = ''Hello world'', finished = False\<rparr>]"

definition after_first_read :: stream_state where
  "after_first_read =
     \<lparr>accumulatedContent = ''Hello world'',
      tokenUsage = \<lparr>prompt_tokens = 0, completion_tokens = 0, total_tokens = Some 0\<rparr>,
      buffer = [], emitted = map OnChunk hello_chunks\<rparr>"

definition slow_read :: read_event where
  "slow_read = \<lparr>wait_ms = 45000, outcome = Value body_part2, work_ms = 1\<rparr>"

definition ex_day :: env where
  "ex_day = ex_env ''2024-01-01''"

definition ex_streaming_limiter :: limiter where
  "ex_streaming_limiter = ex_limiter (Some 100000)"

text \<open>A call with 100 prompt tokens, a limiter that was just constructed over a stored empty
  ledger, an initialised limiter with an empty ledger, and a schedule in which the second call
  resumes from its storage read after the first call has added its tokens.\<close>

definition hundred :: usage_info where
  "hundred = \<lparr>u_model = ''gpt-4'', promptTokens = 100, completionTokens = 0\<rparr>"

definition restarted_limiter :: limiter where
  "restarted_limiter = \<lparr>models = ex_models, limits = ex_limits (Some 100000), usage = None,
     initialized = False, stored = Some (createEmptyUsage ex_day)\<rparr>"

definition ready_limiter :: limiter where
  "ready_limiter = \<lparr>models = ex_models, limits = ex_limits (Some 100000),
     usage = Some (createEmptyUsage ex_day), initialized = True,
     stored = Some (createEmptyUsage ex_day)\<rparr>"

definition racing_schedule :: "bool list" where
  "racing_schedule = [True, False, True, True, True, False, False, False, True, False]"

lemmas ex_defs = ex_env_def ex_limits_def ex_models_def ex_counters_def ex_scope_def ex_usage_def
  ex_limiter_def ex_request_def ex_info_def new_limiter_def

section \<open>The token invariant of the ledger\<close>









lemma snd_checkRequest: "snd (checkRequest e r st) = initialize e st"
  by (simp add: checkRequest_def Let_def split: option.splits check_result.splits)





section \<open>Admission\<close>

lemma countTokens_hi: "countTokens ''hi'' = 1"
  by (simp add: countTokens_def split_ws_length_def js_space_def)




lemma initialize_initialized: "initialized st \<Longrightarrow> initialize e st = st"
  by (simp add: initialize_def)

text \<open>
  Claim C1, at a concrete input. The limiter is initialised and its ledger was last written on
  2024-01-01 with 95 daily tokens; the clock reads 2024-01-02. \<open>checkRequest\<close> compares the
  request of 10 tokens with the stale 95 and denies it for the daily token limit of 100, and
  \<open>recordUsage\<close> adds 150 tokens to the stale counter and leaves the stored date at
  2024-01-01: neither call replaces the daily scope.
\<close>

theorem stale_daily_counters_after_midnight:
  "periodKey (daily ex_usage) \<noteq> currentDate (ex_env ''2024-01-02'')
   \<and> fst (checkRequest (ex_env ''2024-01-02'') ex_request (ex_limiter (Some 100)))
       = Some (Denied Daily_tokens None)
   \<and> map_option (\<lambda>u. (periodKey (daily u), total (tokens (daily u))))
       (usage (snd (recordUsage (ex_env ''2024-01-02'') ex_info (ex_limiter (Some 100)))))
       = Some (''2024-01-01'', 245)"
  by (simp add: ex_defs checkRequest_def recordUsage_def recordUsage_body_def initialize_def countTokens_hi
      calculateCost_def checkMinuteLimit_def ge_limit_def checkDailyLimits_def
      checkPeriodLimits_def truthy_def saveUsage_def add_usage_def add_counters_def Let_def)

text \<open>In general: once the limiter is initialised, neither call looks at the clock's date. The
  admission check leaves the limiter as it is, and \<open>recordUsage\<close> keeps the date and the
  month of the ledger, whatever the clock reads.\<close>

lemma no_rollover_once_initialized:
  assumes "initialized st" and "usage st = Some u"
  shows "snd (checkRequest e r st) = st"
    and "\<exists>u'. usage (snd (recordUsage e i st)) = Some u'
           \<and> periodKey (daily u') = periodKey (daily u)
           \<and> periodKey (monthly u') = periodKey (monthly u)"
proof -
  show "snd (checkRequest e r st) = st"
    using assms(1) by (simp add: snd_checkRequest initialize_initialized)
  show "\<exists>u'. usage (snd (recordUsage e i st)) = Some u'
           \<and> periodKey (daily u') = periodKey (daily u)
           \<and> periodKey (monthly u') = periodKey (monthly u)"
    using assms
    by (simp add: recordUsage_def recordUsage_body_def initialize_initialized Let_def
        saveUsage_def add_usage_def add_counters_def)
qed

text \<open>The same request against the same storage after a restart of the service worker: the
  first \<open>initialize\<close> runs \<open>checkAndResetPeriods\<close>, and the request is allowed.\<close>

lemma restart_rolls_over:
  "fst (checkRequest (ex_env ''2024-01-02'') ex_request
          ((ex_limiter (Some 100))\<lparr>usage := None, initialized := False\<rparr>))
     = Some (Allowed \<lparr>prompt = 1, completion = 9, total = 10\<rparr> (57 / 100000))"
  by (simp add: ex_defs checkRequest_def initialize_def countTokens_hi calculateCost_def
      checkMinuteLimit_def ge_limit_def checkDailyLimits_def checkMonthlyLimits_def
      checkPeriodLimits_def truthy_def saveUsage_def checkAndResetPeriods_def fresh_scope_def
      zero_tokens_def Let_def)




section \<open>Cost\<close>




section \<open>The decode loop\<close>

lemma chunks_of_append: "chunks_of (xs @ ys) = chunks_of xs @ chunks_of ys"
  by (induction xs rule: chunks_of.induct) simp_all

lemma chunks_consistent_snoc:
  "chunks_consistent a (cs @ [c]) =
     (chunks_consistent a cs \<and> accumulated c = a @ concat (map content cs) @ content c)"
proof (induction cs arbitrary: a)
  case Nil
  show ?case by simp
next
  case (Cons x xs)
  show ?case by (auto simp: Cons.IH)
qed

lemma stream_inv_initial: "stream_inv initial_stream_state"
  by (simp add: stream_inv_def initial_stream_state_def)

lemma stream_inv_handle_frame:
  assumes "has_onChunk opts" and "stream_inv s"
  shows "stream_inv (handle_frame opts f s)"
  using assms
  by (auto simp: handle_frame_def stream_inv_def Let_def chunks_of_append chunks_consistent_snoc
      split: option.splits)

lemma stream_inv_process_line:
  assumes "has_onChunk opts" and "stream_inv s"
  shows "stream_inv (process_line parse opts s line)"
  using assms by (simp add: process_line_def Let_def stream_inv_handle_frame split: option.splits)

lemma stream_inv_foldl:
  assumes "has_onChunk opts" and "stream_inv s"
  shows "stream_inv (foldl (process_line parse opts) s ls)"
  using assms(2) by (induction ls arbitrary: s) (simp_all add: stream_inv_process_line assms(1))

lemma stream_inv_buffer: "stream_inv (s\<lparr>buffer := b\<rparr>) = stream_inv s"
  by (simp add: stream_inv_def)

lemma stream_inv_tokenUsage: "stream_inv (s\<lparr>tokenUsage := u\<rparr>) = stream_inv s"
  by (simp add: stream_inv_def)

lemma stream_inv_process_value:
  assumes "has_onChunk opts" and "stream_inv s"
  shows "stream_inv (process_value parse opts v s)"
  using assms by (simp add: process_value_def Let_def stream_inv_foldl stream_inv_buffer)

lemma stream_inv_read_loop:
  assumes "has_onChunk opts" and "stream_inv s"
  shows "stream_inv (end_state (read_loop parse opts evs s))"
  using assms(2)
proof (induction evs arbitrary: s)
  case Nil
  then show ?case by simp
next
  case (Cons ev evs)
  then show ?case
    by (cases "outcome ev") (simp_all add: Let_def stream_inv_process_value assms(1))
qed

lemma stream_inv_process_remaining: "stream_inv (process_remaining parse s) = stream_inv s"
  by (simp add: process_remaining_def Let_def stream_inv_tokenUsage split: option.splits)

lemma stream_inv_estimate_usage: "stream_inv (estimate_usage msgs s) = stream_inv s"
  by (simp add: estimate_usage_def stream_inv_def)

lemma chunks_of_catch_block: "chunks_of (catch_block opts err) = []"
  by (simp add: catch_block_def Let_def)

text \<open>
  Claim C7. With the chunk callback in place (as \<open>generateResponseStream\<close> always passes
  it), a frame with a non-empty content delta appends the delta to the accumulated text and
  calls the callback at once with the delta and the text accumulated so far; every chunk of a
  call carries the accumulated text up to and including its own delta; and when the call
  returns, the deltas of the chunks, concatenated in the order of emission, are the content of
  the result.
\<close>

theorem chunk_deltas_concatenate:
  assumes "has_onChunk opts"
  shows "(delta_content f = Some ch \<longrightarrow> ch \<noteq> [] \<longrightarrow>
            accumulatedContent (handle_frame opts f s) = accumulatedContent s @ ch
            \<and> emitted (handle_frame opts f s)
                = emitted s @ [OnChunk \<lparr>content = ch, accumulated = accumulatedContent s @ ch,
                                        finished = False\<rparr>])
         \<and> chunks_consistent [] (chunks_of (fst (callOpenAIStream parse msgs opts fetch)))
         \<and> (snd (callOpenAIStream parse msgs opts fetch) = Returned res \<longrightarrow>
              concat (map content (chunks_of (fst (callOpenAIStream parse msgs opts fetch))))
                = res_content res)"
proof (intro conjI impI)
  assume "delta_content f = Some ch" "ch \<noteq> []"
  then show "accumulatedContent (handle_frame opts f s) = accumulatedContent s @ ch"
    by (simp add: handle_frame_def Let_def split: option.splits)
  from \<open>delta_content f = Some ch\<close> \<open>ch \<noteq> []\<close> assms
  show "emitted (handle_frame opts f s)
                = emitted s @ [OnChunk \<lparr>content = ch, accumulated = accumulatedContent s @ ch,
                                        finished = False\<rparr>]"
    by (simp add: handle_frame_def Let_def split: option.splits)
next
  have inv: "stream_inv (end_state (read_loop parse opts evs initial_stream_state))" for evs
    using assms stream_inv_initial by (rule stream_inv_read_loop)
  show "chunks_consistent [] (chunks_of (fst (callOpenAIStream parse msgs opts fetch)))"
  proof (cases fetch)
    case (Fetch_rejected err)
    then show ?thesis by (simp add: callOpenAIStream_def chunks_of_catch_block)
  next
    case (Fetch_response r)
    show ?thesis
    proof (cases "read_loop parse opts (body_reads r) initial_stream_state")
      case (Loop_done s)
      with inv[of "body_reads r"] have "stream_inv (estimate_usage msgs (process_remaining parse s))"
        by (simp add: stream_inv_estimate_usage stream_inv_process_remaining)
      with Fetch_response Loop_done show ?thesis
        by (simp add: callOpenAIStream_def Let_def chunks_of_append chunks_of_catch_block stream_inv_def)
    next
      case (Loop_thrown err s)
      with inv[of "body_reads r"] Fetch_response show ?thesis
        by (simp add: callOpenAIStream_def Let_def chunks_of_append chunks_of_catch_block stream_inv_def)
    next
      case (Loop_hangs s)
      with inv[of "body_reads r"] Fetch_response show ?thesis
        by (simp add: callOpenAIStream_def Let_def chunks_of_append chunks_of_catch_block stream_inv_def)
    qed
  qed
next
  assume ret: "snd (callOpenAIStream parse msgs opts fetch) = Returned res"
  have inv: "stream_inv (end_state (read_loop parse opts evs initial_stream_state))" for evs
    using assms stream_inv_initial by (rule stream_inv_read_loop)
  show "concat (map content (chunks_of (fst (callOpenAIStream parse msgs opts fetch)))) = res_content res"
  proof (cases fetch)
    case (Fetch_rejected err)
    with ret show ?thesis by (simp add: callOpenAIStream_def)
  next
    case (Fetch_response r)
    show ?thesis
    proof (cases "read_loop parse opts (body_reads r) initial_stream_state")
      case (Loop_done s)
      with inv[of "body_reads r"] have "stream_inv (estimate_usage msgs (process_remaining parse s))"
        by (simp add: stream_inv_estimate_usage stream_inv_process_remaining)
      with Fetch_response Loop_done ret show ?thesis
        by (auto simp: callOpenAIStream_def Let_def chunks_of_append stream_inv_def split: if_splits)
    next
      case (Loop_thrown err s)
      with Fetch_response ret show ?thesis
        by (simp add: callOpenAIStream_def Let_def split: if_splits)
    next
      case (Loop_hangs s)
      with Fetch_response ret show ?thesis
        by (simp add: callOpenAIStream_def Let_def split: if_splits)
    qed
  qed
qed

section \<open>Settlement of a streaming call\<close>

lemma all_chunks_handle_frame:
  "list_all is_chunk (emitted s) \<Longrightarrow> list_all is_chunk (emitted (handle_frame opts f s))"
  by (simp add: handle_frame_def Let_def split: option.splits)

lemma all_chunks_process_line:
  "list_all is_chunk (emitted s) \<Longrightarrow> list_all is_chunk (emitted (process_line parse opts s l))"
  by (simp add: process_line_def Let_def all_chunks_handle_frame split: option.splits)

lemma all_chunks_foldl:
  "list_all is_chunk (emitted s) \<Longrightarrow> list_all is_chunk (emitted (foldl (process_line parse opts) s ls))"
  by (induction ls arbitrary: s) (simp_all add: all_chunks_process_line)

lemma all_chunks_process_value:
  "list_all is_chunk (emitted s) \<Longrightarrow> list_all is_chunk (emitted (process_value parse opts v s))"
  by (simp add: process_value_def Let_def all_chunks_foldl)

lemma all_chunks_read_loop:
  "list_all is_chunk (emitted s) \<Longrightarrow> list_all is_chunk (emitted (end_state (read_loop parse opts evs s)))"
proof (induction evs arbitrary: s)
  case Nil
  then show ?case by simp
next
  case (Cons ev evs)
  then show ?case
    by (cases "outcome ev") (simp_all add: Let_def all_chunks_process_value)
qed

lemma emitted_process_remaining: "emitted (process_remaining parse s) = emitted s"
  by (simp add: process_remaining_def Let_def split: option.splits)

lemma emitted_estimate_usage: "emitted (estimate_usage msgs s) = emitted s"
  by (simp add: estimate_usage_def)

lemma accumulated_process_remaining: "accumulatedContent (process_remaining parse s) = accumulatedContent s"
  by (simp add: process_remaining_def Let_def split: option.splits)

lemma deliver_chunks:
  "list_all is_chunk cbs \<Longrightarrow>
     foldl (deliver e opts) acc cbs
       = (fst acc @ (if has_onChunk opts then map Chunk_event (chunks_of cbs) else []), snd acc)"
proof (induction cbs arbitrary: acc)
  case Nil
  then show ?case by simp
next
  case (Cons cb cbs)
  then show ?case by (cases cb) (simp_all add: deliver_def)
qed

lemma catch_block_cases:
  "catch_block opts err = (if has_onError opts then
      [OnError (if err_name err = ''AbortError'' then ''Stream aborted by user''
                else if js_includes (err_message err) ''Failed to fetch''
                  then ''Network error. Please check your connection and try again.''
                else if js_includes (err_message err) ''timeout''
                  then ''Request timed out. Please try again.''
                else err_message err)] else [])"
  by (simp add: catch_block_def Let_def)

text \<open>A call that throws has delivered chunks and then what the catch block delivers.\<close>

lemma callOpenAIStream_thrown:
  assumes "snd (callOpenAIStream parse msgs opts fetch) = Thrown err"
  shows "\<exists>cbs. list_all is_chunk cbs \<and> fst (callOpenAIStream parse msgs opts fetch) = cbs @ catch_block opts err"
proof (cases fetch)
  case (Fetch_rejected e)
  with assms show ?thesis by (auto simp: callOpenAIStream_def)
next
  case (Fetch_response r)
  show ?thesis
  proof (cases "200 \<le> status r \<and> status r \<le> 299")
    case False
    with assms Fetch_response show ?thesis by (auto simp: callOpenAIStream_def)
  next
    case True
    have ch: "list_all is_chunk (emitted (end_state (read_loop parse opts (body_reads r) initial_stream_state)))"
      by (rule all_chunks_read_loop) (simp add: initial_stream_state_def)
    show ?thesis
    proof (cases "read_loop parse opts (body_reads r) initial_stream_state")
      case (Loop_done s)
      with assms Fetch_response True show ?thesis by (simp add: callOpenAIStream_def Let_def)
    next
      case (Loop_thrown e s)
      with assms Fetch_response True ch show ?thesis by (auto simp: callOpenAIStream_def)
    next
      case (Loop_hangs s)
      with assms Fetch_response True show ?thesis by (simp add: callOpenAIStream_def)
    qed
  qed
qed

lemma callOpenAIStream_returned:
  assumes "snd (callOpenAIStream parse msgs opts fetch) = Returned res"
  shows "\<exists>cbs. list_all is_chunk cbs \<and>
           fst (callOpenAIStream parse msgs opts fetch)
             = cbs @ (if has_onComplete opts then [OnComplete res] else [])"
proof (cases fetch)
  case (Fetch_rejected e)
  with assms show ?thesis by (auto simp: callOpenAIStream_def)
next
  case (Fetch_response r)
  show ?thesis
  proof (cases "200 \<le> status r \<and> status r \<le> 299")
    case False
    with assms Fetch_response show ?thesis by (auto simp: callOpenAIStream_def)
  next
    case True
    have ch: "list_all is_chunk (emitted (end_state (read_loop parse opts (body_reads r) initial_stream_state)))"
      by (rule all_chunks_read_loop) (simp add: initial_stream_state_def)
    show ?thesis
    proof (cases "read_loop parse opts (body_reads r) initial_stream_state")
      case (Loop_done s)
      with assms Fetch_response True ch show ?thesis
        by (auto simp: callOpenAIStream_def Let_def emitted_estimate_usage emitted_process_remaining)
    next
      case (Loop_thrown e s)
      with assms Fetch_response True show ?thesis by (auto simp: callOpenAIStream_def)
    next
      case (Loop_hangs s)
      with assms Fetch_response True show ?thesis by (simp add: callOpenAIStream_def)
    qed
  qed
qed

lemma generateResponseStream_allowed:
  assumes "has_key" and "fst (checkRequest e (stream_request p) st) = Some (Allowed t c)"
  shows "generateResponseStream parse e e' has_key p opts fetch st =
     (let r = callOpenAIStream parse p (with_wrappers opts) fetch;
          done = foldl (deliver e' opts) ([], initialize e st) (fst r)
      in case snd r of
           Returned res \<Rightarrow> (fst done, Gen_streaming, snd done)
         | Thrown err \<Rightarrow>
             (fst done @ (if has_onError opts then [Error_event (err_message err)] else []),
              Gen_failed (err_message err), snd done)
         | Hangs \<Rightarrow> (fst done, Gen_hangs, snd done))"
proof -
  have "checkRequest e (stream_request p) st = (Some (Allowed t c), initialize e st)"
    using assms(2) snd_checkRequest[of e "stream_request p" st]
    by (cases "checkRequest e (stream_request p) st") simp
  then show ?thesis
    using assms(1)
    by (cases "callOpenAIStream parse p (opts\<lparr>has_onChunk := True, has_onComplete := True\<rparr>) fetch")
      (simp add: generateResponseStream_def stream_request_def with_wrappers_def Let_def
        split: stream_outcome.splits)
qed

lemma has_onError_with_wrappers: "has_onError (with_wrappers opts) = has_onError opts"
  by (simp add: with_wrappers_def)

lemma foldl_deliver_thrown:
  assumes "list_all is_chunk cbs"
  shows "foldl (deliver e opts) ([], st) (cbs @ catch_block (with_wrappers opts) err)
         = ((if has_onChunk opts then map Chunk_event (chunks_of cbs) else [])
              @ (if has_onError opts then
                  [Error_event (if err_name err = ''AbortError'' then ''Stream aborted by user''
                    else if js_includes (err_message err) ''Failed to fetch''
                      then ''Network error. Please check your connection and try again.''
                    else if js_includes (err_message err) ''timeout''
                      then ''Request timed out. Please try again.''
                    else err_message err)] else []), st)"
  using assms
  by (simp add: deliver_chunks catch_block_cases has_onError_with_wrappers deliver_def)

text \<open>
  Claim C2, as amended. When the streaming call is aborted (the transport rejects with an
  \<open>AbortError\<close>) after admission, \<open>generateResponseStream\<close> leaves the limiter as the
  admission check left it: \<open>recordUsage\<close> is not called. It returns the failure object, and
  the error callback, when given, is called with "Stream aborted by user" and then with the
  message of the abort error, after the chunks delivered so far.
\<close>

theorem aborted_stream_is_not_recorded:
  assumes "has_key"
    and "fst (checkRequest e (stream_request p) st) = Some (Allowed t c)"
    and "snd (callOpenAIStream parse p (with_wrappers opts) fetch) = Thrown err"
    and "err_name err = ''AbortError''"
  shows "snd (snd (generateResponseStream parse e e' has_key p opts fetch st)) = initialize e st
     \<and> fst (snd (generateResponseStream parse e e' has_key p opts fetch st))
         = Gen_failed (err_message err)
     \<and> (has_onError opts \<longrightarrow>
          (\<exists>cs. fst (generateResponseStream parse e e' has_key p opts fetch st)
             = map Chunk_event cs
               @ [Error_event ''Stream aborted by user'', Error_event (err_message err)]))"
proof -
  obtain cbs where cbs: "list_all is_chunk cbs"
    "fst (callOpenAIStream parse p (with_wrappers opts) fetch) = cbs @ catch_block (with_wrappers opts) err"
    using callOpenAIStream_thrown[OF assms(3)] by blast
  have g: "generateResponseStream parse e e' has_key p opts fetch st =
      (fst (foldl (deliver e' opts) ([], initialize e st) (cbs @ catch_block (with_wrappers opts) err))
         @ (if has_onError opts then [Error_event (err_message err)] else []),
       Gen_failed (err_message err),
       snd (foldl (deliver e' opts) ([], initialize e st) (cbs @ catch_block (with_wrappers opts) err)))"
    using assms(3) cbs(2)
    by (simp add: generateResponseStream_allowed[OF assms(1,2)] Let_def)
  show ?thesis
    unfolding g foldl_deliver_thrown[OF cbs(1)] using assms(4)
    by (cases "has_onChunk opts") auto
qed

section \<open>The read timer\<close>

lemma read_loop_timely:
  assumes "list_all timely pre"
  shows "\<exists>s'. list_all is_chunk (emitted s) \<longrightarrow>
           list_all is_chunk (emitted s') \<and> read_loop parse opts (pre @ rest) s = read_loop parse opts rest s'"
  using assms
proof (induction pre arbitrary: s)
  case Nil
  show ?case by auto
next
  case (Cons ev pre)
  from Cons.prems have ev: "timely ev" and pre: "list_all timely pre"
    by simp_all
  from ev obtain v where v: "outcome ev = Value v" "wait_ms ev \<le> timeout" "work_ms ev \<le> timeout"
    by (auto simp: timely_def)
  from Cons.IH[OF pre, of "process_value parse opts v s"]
  obtain s' where s': "list_all is_chunk (emitted (process_value parse opts v s)) \<longrightarrow>
           list_all is_chunk (emitted s') \<and>
           read_loop parse opts (pre @ rest) (process_value parse opts v s) = read_loop parse opts rest s'"
    by blast
  show ?case
  proof (intro exI[of _ s'] impI)
    assume "list_all is_chunk (emitted s)"
    then have "list_all is_chunk (emitted (process_value parse opts v s))"
      by (rule all_chunks_process_value)
    with s' v show "list_all is_chunk (emitted s') \<and>
        read_loop parse opts ((ev # pre) @ rest) s = read_loop parse opts rest s'"
      by (simp add: Let_def)
  qed
qed

lemma all_chunks_map: "list_all is_chunk cbs \<Longrightarrow> cbs = map OnChunk (chunks_of cbs)"
proof (induction cbs)
  case Nil
  show ?case by simp
next
  case (Cons cb cbs)
  then show ?case by (cases cb) simp_all
qed

lemma includes_Read_timeout:
  "\<not> js_includes ''Read timeout'' ''Failed to fetch''" "js_includes ''Read timeout'' ''timeout''"
  by (simp_all add: startsWith_def)

text \<open>
  Claim C8, as amended. In a streaming call that was given an abort controller, when the reads
  so far delivered data in time and the next read does not settle within 30 seconds (or never
  settles), the call fails with the error "Read timeout", and the error callback, when given,
  is called with "Request timed out. Please try again." after the chunks delivered so far.
\<close>

theorem unsettled_read_times_out:
  assumes "has_abortController opts"
    and "200 \<le> status r" and "status r \<le> 299"
    and "body_reads r = pre @ rest"
    and "list_all timely pre"
    and "case rest of [] \<Rightarrow> True | ev # post \<Rightarrow> wait_ms ev > timeout"
  shows "snd (callOpenAIStream parse msgs opts (Fetch_response r)) = Thrown (Error ''Read timeout'')
     \<and> (has_onError opts \<longrightarrow>
          (\<exists>cs. fst (callOpenAIStream parse msgs opts (Fetch_response r))
             = map OnChunk cs @ [OnError ''Request timed out. Please try again.'']))"
proof -
  obtain s' where s': "list_all is_chunk (emitted s')"
    "read_loop parse opts (pre @ rest) initial_stream_state = read_loop parse opts rest s'"
    using read_loop_timely[OF assms(5), of initial_stream_state parse opts rest]
    by (auto simp: initial_stream_state_def)
  have t: "read_loop parse opts rest s' = Loop_thrown (Error ''Read timeout'') s'"
    using assms(1,6) by (cases rest) simp_all
  have c: "catch_block opts (Error ''Read timeout'')
           = (if has_onError opts then [OnError ''Request timed out. Please try again.''] else [])"
    by (simp add: catch_block_cases Error_def startsWith_def)
  have m: "\<exists>cs. emitted s' = map OnChunk cs"
    using all_chunks_map[OF s'(1)] by blast
  show ?thesis
    using assms(2,3,4) s'(2) t c m
    by (auto simp: callOpenAIStream_def)
qed

section \<open>Failure reports and the usage fallback\<close>

lemma with_wrappers_listener: "with_wrappers listener_options = listener_options"
  by (simp add: with_wrappers_def listener_options_def)



lemma initialized_initialize: "initialized (initialize e st)"
  by (simp add: initialize_def checkAndResetPeriods_def saveUsage_def Let_def
      split: option.splits prod.splits bool.splits)

lemma usage_of_allowed:
  "fst (checkRequest e r st) = Some (Allowed t c) \<Longrightarrow> \<exists>u. usage (initialize e st) = Some u"
  by (cases "usage (initialize e st)") (simp_all add: checkRequest_def Let_def)

lemma fst_recordUsage:
  assumes "initialized st" and "usage st = Some u"
  shows "fst (recordUsage e i st) = (\<not> set_fails e)"
  using assms by (simp add: recordUsage_def recordUsage_body_def initialize_initialized Let_def saveUsage_def)

text \<open>
  Claim C10. When the body ends and the usage captured from the frames has \<open>total_tokens\<close>
  missing or 0, the usage of the result is the heuristic estimate; this result is what the
  completion callback of the call receives, its prompt and completion figures are what
  \<open>recordUsage\<close> is called with, and the caller's completion event carries the same three
  figures.
\<close>

theorem usage_fallback_estimate:
  assumes "has_key"
    and "fst (checkRequest e (stream_request p) st) = Some (Allowed t c)"
    and "200 \<le> status r" and "status r \<le> 299"
    and "read_loop parse (with_wrappers opts) (body_reads r) initial_stream_state = Loop_done s"
    and "total_tokens (tokenUsage (process_remaining parse s)) = None
         \<or> total_tokens (tokenUsage (process_remaining parse s)) = Some 0"
  shows "snd (callOpenAIStream parse p (with_wrappers opts) (Fetch_response r))
           = Returned \<lparr>res_content = accumulatedContent s,
                        res_usage = estimated_usage p (accumulatedContent s)\<rparr>
     \<and> last (fst (callOpenAIStream parse p (with_wrappers opts) (Fetch_response r)))
           = OnComplete \<lparr>res_content = accumulatedContent s,
                          res_usage = estimated_usage p (accumulatedContent s)\<rparr>
     \<and> snd (snd (generateResponseStream parse e e' has_key p opts (Fetch_response r) st))
           = snd (recordUsage e' \<lparr>u_model = ''gpt-4'', promptTokens = countTokens p,
                                   completionTokens = countTokens (accumulatedContent s)\<rparr>
                    (initialize e st))
     \<and> (has_onComplete opts \<longrightarrow> \<not> set_fails e' \<longrightarrow>
          last (fst (generateResponseStream parse e e' has_key p opts (Fetch_response r) st))
            = Complete_event \<lparr>response_text = accumulatedContent s,
                tokenUsage_prompt = countTokens p,
                tokenUsage_completion = countTokens (accumulatedContent s),
                tokenUsage_total = Some (countTokens p + countTokens (accumulatedContent s))\<rparr>)"
proof -
  let ?res = "\<lparr>res_content = accumulatedContent s,
               res_usage = estimated_usage p (accumulatedContent s)\<rparr>"
  let ?info = "\<lparr>u_model = ''gpt-4'', promptTokens = countTokens p,
                 completionTokens = countTokens (accumulatedContent s)\<rparr>"
  have est: "tokenUsage (estimate_usage p (process_remaining parse s))
               = estimated_usage p (accumulatedContent s)"
    using assms(6)
    by (auto simp: estimate_usage_def estimated_usage_def truthy_def accumulated_process_remaining)
  have acc: "accumulatedContent (estimate_usage p (process_remaining parse s)) = accumulatedContent s"
    by (simp add: estimate_usage_def accumulated_process_remaining)
  have wc: "has_onComplete (with_wrappers opts)" by (simp add: with_wrappers_def)
  have call: "callOpenAIStream parse p (with_wrappers opts) (Fetch_response r)
                = (emitted s @ [OnComplete ?res], Returned ?res)"
    using assms(3,4,5) est acc wc
    by (simp add: callOpenAIStream_def Let_def emitted_estimate_usage emitted_process_remaining)
  have ch: "list_all is_chunk (emitted s)"
    using all_chunks_read_loop[of initial_stream_state parse "with_wrappers opts" "body_reads r"] assms(5)
    by (simp add: initial_stream_state_def)
  obtain u where u: "usage (initialize e st) = Some u"
    using usage_of_allowed[OF assms(2)] by blast
  have ok: "fst (recordUsage e' ?info (initialize e st)) = (\<not> set_fails e')"
    using initialized_initialize u by (rule fst_recordUsage)
  have fold: "foldl (deliver e' opts) ([], initialize e st) (emitted s @ [OnComplete ?res])
      = ((if has_onChunk opts then map Chunk_event (chunks_of (emitted s)) else [])
           @ (if \<not> set_fails e' \<and> has_onComplete opts
              then [Complete_event \<lparr>response_text = accumulatedContent s,
                tokenUsage_prompt = countTokens p,
                tokenUsage_completion = countTokens (accumulatedContent s),
                tokenUsage_total = Some (countTokens p + countTokens (accumulatedContent s))\<rparr>]
              else []),
         snd (recordUsage e' ?info (initialize e st)))"
    using ok
    by (cases "recordUsage e' ?info (initialize e st)"; cases "set_fails e'")
      (auto simp: deliver_chunks[OF ch] deliver_def estimated_usage_def)
  have g: "generateResponseStream parse e e' has_key p opts (Fetch_response r) st
      = (fst (foldl (deliver e' opts) ([], initialize e st) (emitted s @ [OnComplete ?res])),
         Gen_streaming,
         snd (foldl (deliver e' opts) ([], initialize e st) (emitted s @ [OnComplete ?res])))"
    by (simp add: generateResponseStream_allowed[OF assms(1,2)] call Let_def)
  show ?thesis
    unfolding g fold call by simp
qed

section \<open>The streaming examples\<close>

lemmas decode_defs = process_value_def process_line_def handle_frame_def trim_def js_space_def
  startsWith_def nl_def ex_parse_def Let_def body_part1_def body_part2_def

lemma first_read_value:
  "has_onChunk opts \<Longrightarrow>
   process_value ex_parse opts body_part1 initial_stream_state
     = after_first_read"
  by (simp add: decode_defs initial_stream_state_def after_first_read_def hello_chunks_def)

lemma second_read_value:
  "process_value ex_parse opts body_part2 after_first_read
     = after_first_read"
  by (simp add: decode_defs after_first_read_def)

lemma timely_first_read: "timely (first_read 120)"
  by (simp add: timely_def first_read_def timeout_def)

lemma read_loop_ok:
  "has_onChunk opts \<Longrightarrow> w \<le> timeout \<or> \<not> has_abortController opts \<Longrightarrow>
   read_loop ex_parse opts (ex_reads_ok w) initial_stream_state = Loop_done after_first_read"
  by (auto simp add: ex_reads_ok_def first_read_def first_read_value second_read_value timeout_def)

lemma read_loop_abort:
  "has_onChunk opts \<Longrightarrow>
   read_loop ex_parse opts ex_reads_abort initial_stream_state = Loop_thrown abort_error after_first_read"
  by (simp add: ex_reads_abort_def first_read_def first_read_value timeout_def)

lemma countTokens_Hello_world: "countTokens ''Hello world'' = 3"
  by (simp add: countTokens_def split_ws_length_def js_space_def)

lemma hello_result:
  "has_onChunk opts \<Longrightarrow> w \<le> timeout \<or> \<not> has_abortController opts \<Longrightarrow>
   callOpenAIStream ex_parse ''hi'' opts (ok_response (ex_reads_ok w))
     = (map OnChunk hello_chunks
          @ (if has_onComplete opts then [OnComplete \<lparr>res_content = ''Hello world'',
                res_usage = \<lparr>prompt_tokens = 1, completion_tokens = 3, total_tokens = Some 4\<rparr>\<rparr>] else []),
        Returned \<lparr>res_content = ''Hello world'',
                res_usage = \<lparr>prompt_tokens = 1, completion_tokens = 3, total_tokens = Some 4\<rparr>\<rparr>)"
  by (simp add: callOpenAIStream_def ok_response_def read_loop_ok process_remaining_def
      estimate_usage_def truthy_def after_first_read_def trim_def countTokens_hi
      countTokens_Hello_world Let_def)

lemma abort_result:
  "callOpenAIStream ex_parse ''hi'' listener_options (ok_response ex_reads_abort)
     = (map OnChunk hello_chunks @ [OnError ''Stream aborted by user''], Thrown abort_error)"
  by (simp add: callOpenAIStream_def ok_response_def read_loop_abort listener_options_def
      catch_block_def abort_error_def after_first_read_def)

lemma stream_admitted:
  "checkRequest (ex_env ''2024-01-01'') (stream_request ''hi'') (ex_limiter (Some 100000))
     = (Some (Allowed \<lparr>prompt = 1, completion = 1000, total = 1001\<rparr> (6003 / 100000)),
        ex_limiter (Some 100000))"
  by (simp add: ex_defs stream_request_def checkRequest_def initialize_def countTokens_hi
      calculateCost_def checkMinuteLimit_def ge_limit_def checkDailyLimits_def
      checkMonthlyLimits_def checkPeriodLimits_def truthy_def)

text \<open>The example body: two chunks, "Hello" and " world".\<close>

theorem chunk_deltas_concatenate_witness:
  "has_onChunk listener_options
   \<and> chunks_of (fst (callOpenAIStream ex_parse ''hi'' listener_options (ok_response (ex_reads_ok 120))))
       = hello_chunks
   \<and> chunks_consistent [] hello_chunks
   \<and> concat (map content hello_chunks) = ''Hello world''
   \<and> snd (callOpenAIStream ex_parse ''hi'' listener_options (ok_response (ex_reads_ok 120)))
       = Returned \<lparr>res_content = ''Hello world'',
           res_usage = \<lparr>prompt_tokens = 1, completion_tokens = 3, total_tokens = Some 4\<rparr>\<rparr>"
proof -
  have l: "has_onChunk listener_options" by (simp add: listener_options_def)
  have r: "callOpenAIStream ex_parse ''hi'' listener_options (ok_response (ex_reads_ok 120))
     = (map OnChunk hello_chunks
          @ [OnComplete \<lparr>res_content = ''Hello world'',
                res_usage = \<lparr>prompt_tokens = 1, completion_tokens = 3, total_tokens = Some 4\<rparr>\<rparr>],
        Returned \<lparr>res_content = ''Hello world'',
                res_usage = \<lparr>prompt_tokens = 1, completion_tokens = 3, total_tokens = Some 4\<rparr>\<rparr>)"
    using hello_result[OF l, of 120] by (simp add: timeout_def listener_options_def)
  have c: "chunks_of (fst (callOpenAIStream ex_parse ''hi'' listener_options (ok_response (ex_reads_ok 120))))
       = hello_chunks"
    unfolding r by (simp add: hello_chunks_def)
  show ?thesis
    using chunk_deltas_concatenate [OF l, where parse = ex_parse and msgs = "''hi''"
        and fetch = "ok_response (ex_reads_ok 120)"
        and res = "\<lparr>res_content = ''Hello world'',
           res_usage = \<lparr>prompt_tokens = 1, completion_tokens = 3, total_tokens = Some 4\<rparr>\<rparr>"]
      l c r
    by simp
qed

lemma stream_admitted':
  "fst (checkRequest ex_day (stream_request ''hi'') ex_streaming_limiter)
     = Some (Allowed \<lparr>prompt = 1, completion = 1000, total = 1001\<rparr> (6003 / 100000))"
  by (simp add: stream_admitted ex_day_def ex_streaming_limiter_def)

lemma initialize_ex_streaming: "initialize e ex_streaming_limiter = ex_streaming_limiter"
  by (simp add: initialize_def ex_streaming_limiter_def ex_limiter_def)

lemma listener_flags:
  "has_onChunk listener_options" "has_onError listener_options"
  "has_onComplete listener_options" "has_abortController listener_options"
  by (simp_all add: listener_options_def)


lemma recorded_tokens:
  "map_option (\<lambda>u. tokens (daily u))
     (usage (snd (recordUsage ex_day \<lparr>u_model = ''gpt-4'', promptTokens = 1, completionTokens = 3\<rparr>
                    ex_streaming_limiter)))
     = Some \<lparr>prompt = 61, completion = 38, total = 99\<rparr>"
  by (simp add: ex_day_def ex_streaming_limiter_def ex_defs recordUsage_def recordUsage_body_def initialize_def
      saveUsage_def add_usage_def add_counters_def calculateCost_def Let_def)

lemma unrecorded_tokens:
  "map_option (\<lambda>u. tokens (daily u)) (usage ex_streaming_limiter)
     = Some \<lparr>prompt = 60, completion = 35, total = 95\<rparr>"
  by (simp add: ex_streaming_limiter_def ex_defs)

text \<open>The example body that is aborted after its first read.\<close>

theorem aborted_stream_is_not_recorded_witness:
  "fst (checkRequest ex_day (stream_request ''hi'') ex_streaming_limiter)
     = Some (Allowed \<lparr>prompt = 1, completion = 1000, total = 1001\<rparr> (6003 / 100000))
   \<and> snd (callOpenAIStream ex_parse ''hi'' (with_wrappers listener_options)
            (ok_response ex_reads_abort)) = Thrown abort_error
   \<and> err_name abort_error = ''AbortError''
   \<and> snd (snd (generateResponseStream ex_parse ex_day ex_day True ''hi'' listener_options
                 (ok_response ex_reads_abort) ex_streaming_limiter)) = ex_streaming_limiter
   \<and> fst (snd (generateResponseStream ex_parse ex_day ex_day True ''hi'' listener_options
                 (ok_response ex_reads_abort) ex_streaming_limiter))
       = Gen_failed ''The user aborted a request.''"
proof -
  have k: "True" by simp
  have t: "snd (callOpenAIStream ex_parse ''hi'' (with_wrappers listener_options)
            (ok_response ex_reads_abort)) = Thrown abort_error"
    by (simp add: with_wrappers_listener abort_result)
  have n: "err_name abort_error = ''AbortError''" by (simp add: abort_error_def)
  show ?thesis
    using aborted_stream_is_not_recorded [OF k stream_admitted' t n, of ex_day] stream_admitted' t n
    by (simp add: initialize_ex_streaming abort_error_def)
qed

text \<open>Claim C2 as stated fails: the stream is aborted after the chunks "Hello" and " world",
  and the limiter is returned unchanged, with 95 daily tokens, where \<open>recordUsage\<close> with the
  usage accrued would have left 99.\<close>

theorem aborted_stream_counterexample:
  "generateResponseStream ex_parse ex_day ex_day True ''hi'' listener_options
       (ok_response ex_reads_abort) ex_streaming_limiter
     = (map Chunk_event hello_chunks
          @ [Error_event ''Stream aborted by user'', Error_event ''The user aborted a request.''],
        Gen_failed ''The user aborted a request.'', ex_streaming_limiter)
   \<and> map_option (\<lambda>u. tokens (daily u)) (usage ex_streaming_limiter)
       = Some \<lparr>prompt = 60, completion = 35, total = 95\<rparr>
   \<and> map_option (\<lambda>u. tokens (daily u))
       (usage (snd (recordUsage ex_day
          \<lparr>u_model = ''gpt-4'', promptTokens = 1, completionTokens = 3\<rparr> ex_streaming_limiter)))
       = Some \<lparr>prompt = 61, completion = 38, total = 99\<rparr>"
proof -
  have k: "True" by simp
  have c: "list_all is_chunk (map OnChunk hello_chunks)" by (simp add: hello_chunks_def)
  have g: "generateResponseStream ex_parse ex_day ex_day True ''hi'' listener_options
       (ok_response ex_reads_abort) ex_streaming_limiter
     = (map Chunk_event hello_chunks
          @ [Error_event ''Stream aborted by user'', Error_event ''The user aborted a request.''],
        Gen_failed ''The user aborted a request.'', ex_streaming_limiter)"
    by (simp add: generateResponseStream_allowed[OF k stream_admitted'] with_wrappers_listener
        abort_result initialize_ex_streaming deliver_def deliver_chunks[OF c] listener_flags
        abort_error_def hello_chunks_def Let_def)
  show ?thesis using g recorded_tokens unrecorded_tokens by simp
qed

text \<open>A body whose second read settles after 45 seconds, in a call of the listener.\<close>

theorem unsettled_read_times_out_witness:
  "has_abortController listener_options
   \<and> list_all timely [first_read 120]
   \<and> wait_ms slow_read > timeout
   \<and> callOpenAIStream ex_parse ''hi'' listener_options (ok_response ([first_read 120] @ [slow_read]))
       = (map OnChunk hello_chunks @ [OnError ''Request timed out. Please try again.''],
          Thrown (Error ''Read timeout''))"
proof -
  let ?r = "\<lparr>status = 200, error_body = None, body_reads = [first_read 120] @ [slow_read]\<rparr>"
  have a: "has_abortController listener_options" by (simp add: listener_options_def)
  have s1: "200 \<le> status ?r" and s2: "status ?r \<le> 299" by simp_all
  have b: "body_reads ?r = [first_read 120] @ [slow_read]" by simp
  have t: "list_all timely [first_read 120]" by (simp add: timely_first_read)
  have w: "case [slow_read] of [] \<Rightarrow> True | ev # post \<Rightarrow> wait_ms ev > timeout"
    by (simp add: slow_read_def timeout_def)
  have e: "fst (callOpenAIStream ex_parse ''hi'' listener_options (Fetch_response ?r))
       = map OnChunk hello_chunks @ [OnError ''Request timed out. Please try again.'']"
    by (simp add: callOpenAIStream_def first_read_def slow_read_def timeout_def
        first_read_value listener_options_def after_first_read_def catch_block_def Error_def
        startsWith_def)
  show ?thesis
    using unsettled_read_times_out [OF a s1 s2 b t w, of ex_parse "''hi''"] a t w e
    by (simp add: ok_response_def prod_eq_iff slow_read_def timeout_def)
qed

text \<open>Claim C8 as stated fails for a call without an abort controller: a first read that
  settles after 45 seconds is processed and the call returns, and a body whose next read never
  settles is waited for without end.\<close>

theorem no_abort_controller_counterexample:
  "wait_ms (first_read 45000) > timeout
   \<and> snd (callOpenAIStream ex_parse ''hi'' (listener_options\<lparr>has_abortController := False\<rparr>)
            (ok_response (ex_reads_ok 45000)))
       = Returned \<lparr>res_content = ''Hello world'',
           res_usage = \<lparr>prompt_tokens = 1, completion_tokens = 3, total_tokens = Some 4\<rparr>\<rparr>
   \<and> snd (callOpenAIStream ex_parse ''hi'' (listener_options\<lparr>has_abortController := False\<rparr>)
            (ok_response [first_read 120])) = Hangs"
proof -
  have h: "has_onChunk (listener_options\<lparr>has_abortController := False\<rparr>)"
    by (simp add: listener_options_def)
  have n: "45000 \<le> timeout \<or> \<not> has_abortController (listener_options\<lparr>has_abortController := False\<rparr>)"
    by simp
  show ?thesis
    using hello_result[OF h n]
    by (simp add: first_read_def timeout_def callOpenAIStream_def ok_response_def
        first_read_value[OF h])
qed



text \<open>The example body, whose usage frame reports zero for all three figures.\<close>

theorem usage_fallback_estimate_witness:
  "read_loop ex_parse (with_wrappers listener_options) (ex_reads_ok 120) initial_stream_state
     = Loop_done after_first_read
   \<and> tokenUsage (process_remaining ex_parse after_first_read)
       = \<lparr>prompt_tokens = 0, completion_tokens = 0, total_tokens = Some 0\<rparr>
   \<and> snd (callOpenAIStream ex_parse ''hi'' (with_wrappers listener_options)
            (ok_response (ex_reads_ok 120)))
       = Returned \<lparr>res_content = ''Hello world'',
           res_usage = \<lparr>prompt_tokens = 1, completion_tokens = 3, total_tokens = Some 4\<rparr>\<rparr>
   \<and> map_option (\<lambda>u. tokens (daily u))
        (usage (snd (snd (generateResponseStream ex_parse ex_day ex_day True ''hi'' listener_options
                 (ok_response (ex_reads_ok 120)) ex_streaming_limiter))))
       = Some \<lparr>prompt = 61, completion = 38, total = 99\<rparr>"
proof -
  let ?r = "\<lparr>status = 200, error_body = None, body_reads = ex_reads_ok 120\<rparr>"
  have k: "True" by simp
  have s1: "200 \<le> status ?r" and s2: "status ?r \<le> 299" by simp_all
  have l: "read_loop ex_parse (with_wrappers listener_options) (body_reads ?r) initial_stream_state
     = Loop_done after_first_read"
    by (simp add: read_loop_ok with_wrappers_def timeout_def)
  have z: "tokenUsage (process_remaining ex_parse after_first_read)
       = \<lparr>prompt_tokens = 0, completion_tokens = 0, total_tokens = Some 0\<rparr>"
    by (simp add: process_remaining_def after_first_read_def trim_def)
  have z': "total_tokens (tokenUsage (process_remaining ex_parse after_first_read)) = None
         \<or> total_tokens (tokenUsage (process_remaining ex_parse after_first_read)) = Some 0"
    by (simp add: z)
  have a: "accumulatedContent after_first_read = ''Hello world''"
    by (simp add: after_first_read_def)
  show ?thesis
    using usage_fallback_estimate [OF k stream_admitted' s1 s2 l z', of ex_day] l z recorded_tokens
    by (simp add: ok_response_def a estimated_usage_def countTokens_hi countTokens_Hello_world
        initialize_ex_streaming)
qed

section \<open>Interleaved calls\<close>

text \<open>A call that runs alone does what \<open>recordUsage\<close> does.\<close>

lemma single_call:
  assumes "\<not> get_fails e" and "\<not> set_fails e"
  shows "run e i1 i2 (replicate 5 True) (At_start, p2, st) = (Finished, p2, snd (recordUsage e i1 st))"
proof (cases "initialized st")
  case True
  then show ?thesis
    by (simp add: numeral_eq_Suc task_step_def recordUsage_def initialize_def)
next
  case False
  show ?thesis
  proof (cases "stored st")
    case None
    with False assms show ?thesis
      by (simp add: numeral_eq_Suc task_step_def recordUsage_def initialize_def saveUsage_def)
  next
    case (Some u)
    have "fst (checkAndResetPeriods e (st\<lparr>usage := Some u\<rparr>))"
      using assms(2) by (simp add: checkAndResetPeriods_def saveUsage_def Let_def)
    with False Some assms show ?thesis
      by (cases "checkAndResetPeriods e (st\<lparr>usage := Some u\<rparr>)")
        (simp add: numeral_eq_Suc task_step_def recordUsage_def initialize_def)
  qed
qed

lemma daily_total_add_usage:
  "total (tokens (add_usage m p c cst s)) = total (tokens s) + (p + c)"
  by (simp add: add_usage_def add_counters_def Let_def)

lemma recordUsage_body_total:
  assumes "usage st = Some u"
  shows "\<exists>u'. usage (snd (recordUsage_body e i st)) = Some u'
           \<and> total (tokens (daily u')) = total (tokens (daily u)) + (promptTokens i + completionTokens i)
           \<and> initialized (snd (recordUsage_body e i st)) = initialized st"
  using assms by (simp add: recordUsage_body_def Let_def saveUsage_def daily_total_add_usage)

lemma task_step_initialised:
  assumes "initialized st" and "usage st = Some u" and "past_initialize p"
  shows "\<exists>p' st' u'. task_step e i p st = (p', st') \<and> initialized st' \<and> usage st' = Some u'
           \<and> past_initialize p' \<and> steps_left p' = steps_left p - 1
           \<and> total (tokens (daily u')) + owed i p' = total (tokens (daily u)) + owed i p"
proof -
  from assms(3) consider "p = At_start" | "p = After_initialize" | "p = Await_save" | "p = Finished"
    by (auto simp: past_initialize_def)
  then show ?thesis
  proof cases
    case 1
    with assms show ?thesis by (simp add: task_step_def past_initialize_def owed_def)
  next
    case 2
    from recordUsage_body_total[OF assms(2), of e i] obtain u' where
      "usage (snd (recordUsage_body e i st)) = Some u'"
      "total (tokens (daily u')) = total (tokens (daily u)) + (promptTokens i + completionTokens i)"
      "initialized (snd (recordUsage_body e i st)) = initialized st"
      by blast
    with 2 assms(1) show ?thesis by (simp add: task_step_def past_initialize_def owed_def)
  next
    case 3
    with assms show ?thesis by (simp add: task_step_def past_initialize_def owed_def)
  next
    case 4
    with assms show ?thesis by (simp add: task_step_def past_initialize_def owed_def)
  qed
qed

lemma run_initialised:
  assumes "initialized st" and "usage st = Some u" and "past_initialize p1" and "past_initialize p2"
  shows "\<exists>p1' p2' st' u'. run e i1 i2 sch (p1, p2, st) = (p1', p2', st')
           \<and> usage st' = Some u'
           \<and> steps_left p1' = steps_left p1 - count_list sch True
           \<and> steps_left p2' = steps_left p2 - count_list sch False
           \<and> total (tokens (daily u')) + owed i1 p1' + owed i2 p2'
               = total (tokens (daily u)) + owed i1 p1 + owed i2 p2"
  using assms
proof (induction sch arbitrary: p1 p2 st u)
  case Nil
  then show ?case by simp
next
  case (Cons b sch)
  show ?case
  proof (cases b)
    case True
    from task_step_initialised[OF Cons.prems(1,2,3), of e i1] obtain p' st' u' where
      s: "task_step e i1 p1 st = (p', st')" "initialized st'" "usage st' = Some u'"
         "past_initialize p'" "steps_left p' = steps_left p1 - 1"
         "total (tokens (daily u')) + owed i1 p' = total (tokens (daily u)) + owed i1 p1"
      by blast
    from Cons.IH[OF s(2,3,4) Cons.prems(4)] obtain q1 q2 st'' u'' where
      r: "run e i1 i2 sch (p', p2, st') = (q1, q2, st'')" "usage st'' = Some u''"
         "steps_left q1 = steps_left p' - count_list sch True"
         "steps_left q2 = steps_left p2 - count_list sch False"
         "total (tokens (daily u'')) + owed i1 q1 + owed i2 q2
            = total (tokens (daily u')) + owed i1 p' + owed i2 p2"
      by blast
    from True s r show ?thesis by simp
  next
    case False
    from task_step_initialised[OF Cons.prems(1,2,4), of e i2] obtain p' st' u' where
      s: "task_step e i2 p2 st = (p', st')" "initialized st'" "usage st' = Some u'"
         "past_initialize p'" "steps_left p' = steps_left p2 - 1"
         "total (tokens (daily u')) + owed i2 p' = total (tokens (daily u)) + owed i2 p2"
      by blast
    from Cons.IH[OF s(2,3) Cons.prems(3) s(4)] obtain q1 q2 st'' u'' where
      r: "run e i1 i2 sch (p1, p', st') = (q1, q2, st'')" "usage st'' = Some u''"
         "steps_left q1 = steps_left p1 - count_list sch True"
         "steps_left q2 = steps_left p' - count_list sch False"
         "total (tokens (daily u'')) + owed i1 q1 + owed i2 q2
            = total (tokens (daily u')) + owed i1 p1 + owed i2 p'"
      by blast
    from False s r show ?thesis by simp
  qed
qed

lemma steps_left_0: "steps_left p = 0 \<Longrightarrow> p = Finished"
  by (cases p) simp_all

text \<open>
  Claim C5, as amended. When the limiter is initialised, two interleaved calls of
  \<open>recordUsage\<close> are both counted: under every schedule that lets each call take its three
  steps, both calls finish and the daily token total in memory has grown by the tokens of
  both. The counters of a call are updated between two suspension points; no queue or lock is
  involved.
\<close>

theorem initialised_calls_are_both_counted:
  assumes "initialized st" and "usage st = Some u"
    and "3 \<le> count_list sch True" and "3 \<le> count_list sch False"
  shows "\<exists>st'. run e i1 i2 sch (At_start, At_start, st) = (Finished, Finished, st')
           \<and> daily_total st' = Some (total (tokens (daily u))
                + (promptTokens i1 + completionTokens i1)
                + (promptTokens i2 + completionTokens i2))"
proof -
  have p: "past_initialize At_start" by (simp add: past_initialize_def)
  from run_initialised[OF assms(1,2) p p, of e i1 i2 sch] obtain p1' p2' st' u' where
    r: "run e i1 i2 sch (At_start, At_start, st) = (p1', p2', st')" "usage st' = Some u'"
       "steps_left p1' = steps_left At_start - count_list sch True"
       "steps_left p2' = steps_left At_start - count_list sch False"
       "total (tokens (daily u')) + owed i1 p1' + owed i2 p2'
          = total (tokens (daily u)) + owed i1 At_start + owed i2 At_start"
    by blast
  from r(3,4) assms(3,4) have f: "p1' = Finished" "p2' = Finished"
    by (simp_all add: steps_left_0)
  with r show ?thesis by (simp add: daily_total_def owed_def)
qed

text \<open>Two calls with 100 prompt tokens each against an initialised empty ledger: 200.\<close>

theorem initialised_calls_are_both_counted_witness:
  "initialized ready_limiter \<and> daily_total ready_limiter = Some 0
   \<and> run ex_day hundred hundred [True, False, False, True, True, False]
        (At_start, At_start, ready_limiter)
      = (Finished, Finished,
         snd (snd (run ex_day hundred hundred [True, False, False, True, True, False]
                     (At_start, At_start, ready_limiter))))
   \<and> daily_total (snd (snd (run ex_day hundred hundred [True, False, False, True, True, False]
                     (At_start, At_start, ready_limiter)))) = Some 200"
proof -
  have i: "initialized ready_limiter" by (simp add: ready_limiter_def)
  have u: "usage ready_limiter = Some (createEmptyUsage ex_day)" by (simp add: ready_limiter_def)
  have t: "3 \<le> count_list [True, False, False, True, True, False] True" by simp
  have f: "3 \<le> count_list [True, False, False, True, True, False] False" by simp
  have z: "total (tokens (daily (createEmptyUsage ex_day))) = 0"
    by (simp add: createEmptyUsage_def fresh_scope_def zero_tokens_def)
  show ?thesis
    using initialised_calls_are_both_counted [OF i u t f, of ex_day hundred hundred] i u z
    by (auto simp: hundred_def daily_total_def)
qed

text \<open>Claim C5 as stated fails when the calls overlap with the first \<open>initialize\<close> of a
  limiter: both calls read the stored empty ledger, the first adds its 100 tokens, the second
  then replaces the ledger in memory by the copy it read and adds its own 100. Both calls
  finish and the total is 100.\<close>

theorem lost_update_counterexample:
  "daily_total (restarted_limiter\<lparr>usage := stored restarted_limiter\<rparr>) = Some 0
   \<and> fst (run ex_day hundred hundred racing_schedule (At_start, At_start, restarted_limiter)) = Finished
   \<and> fst (snd (run ex_day hundred hundred racing_schedule (At_start, At_start, restarted_limiter)))
       = Finished
   \<and> daily_total (snd (snd (run ex_day hundred hundred racing_schedule
                               (At_start, At_start, restarted_limiter)))) = Some 100"
  by (simp add: racing_schedule_def restarted_limiter_def task_step_def hundred_def daily_total_def
      checkAndResetPeriods_def recordUsage_body_def saveUsage_def createEmptyUsage_def
      fresh_scope_def zero_tokens_def zero_counters_def add_usage_def add_counters_def
      calculateCost_def ex_day_def ex_defs Let_def)

end
